theory Spec2Isabelle
  imports Main
begin

section \<open>Text: bytes, runes, decimal and hexadecimal digits\<close>

text \<open>
  A Go string is a sequence of bytes; it is modelled as a \<^typ>\<open>string\<close>, one
  \<^typ>\<open>char\<close> per byte. The \<^verbatim>\<open>regexp\<close> package reads a string as UTF-8 runes,
  each ill-formed byte counting as one rune of width one: \<open>rune_width\<close> is the number of
  bytes of the first rune, as \<^verbatim>\<open>utf8.DecodeRuneInString\<close> returns it.
\<close>

definition LF :: char where
  "LF = CHR 0x0A"

definition CR :: char where
  "CR = CHR 0x0D"

definition digits :: string where
  "digits = ''0123456789''"

definition hexdigits :: string where
  "hexdigits = ''0123456789ABCDEFabcdef''"

definition byte_in :: "nat \<Rightarrow> nat \<Rightarrow> char \<Rightarrow> bool" where
  "byte_in lo hi c = (lo \<le> of_char c \<and> of_char c \<le> hi)"

text \<open>
  The first \<open>n\<close> bytes of \<open>s\<close> are there and are continuation bytes; and the narrower
  range that four lead bytes impose on the byte that follows them.
\<close>

definition cont_prefix :: "nat \<Rightarrow> string \<Rightarrow> bool" where
  "cont_prefix n s = (n \<le> length s \<and> list_all (byte_in 0x80 0xBF) (take n s))"

definition second_ok :: "char \<Rightarrow> char \<Rightarrow> bool" where
  "second_ok c c1 =
     ((c = CHR 0xE0 \<longrightarrow> byte_in 0xA0 0xBF c1) \<and> (c = CHR 0xED \<longrightarrow> byte_in 0x80 0x9F c1)
      \<and> (c = CHR 0xF0 \<longrightarrow> byte_in 0x90 0xBF c1) \<and> (c = CHR 0xF4 \<longrightarrow> byte_in 0x80 0x8F c1))"

fun rune_width :: "string \<Rightarrow> nat" where
  "rune_width [] = 0"
| "rune_width (c # s) =
     (if byte_in 0xC2 0xDF c \<and> cont_prefix 1 s then 2
      else if byte_in 0xE0 0xEF c \<and> cont_prefix 2 s \<and> second_ok c (hd s) then 3
      else if byte_in 0xF0 0xF4 c \<and> cont_prefix 3 s \<and> second_ok c (hd s) then 4
      else 1)"

section \<open>The two anchored patterns, as the regexp package matches them\<close>

text \<open>
  Both patterns of the program have the shape \<^verbatim>\<open>^ ... $\<close>: a sequence of literal
  characters, character classes, starred classes, one optional group and capture
  parentheses. A pattern is the list of its items between \<^verbatim>\<open>^\<close> and \<^verbatim>\<open>$\<close>.

  \<open>run\<close> is the leftmost-first (backtracking) match that Go's regexp implements for
  such a pattern: a star takes as many runes as it can and gives them back one at a
  time, an optional group is tried before it is skipped, and \<^verbatim>\<open>$\<close> asks for the end
  of the text. A positive class lists ASCII characters only, so it matches a rune
  exactly when it matches the first byte; a negated class (and the dot, which is the
  class of everything but line feed) takes one whole rune.
\<close>

datatype atom = In string | NotIn string

datatype item = Chr char | One atom | Star atom | Opt "item list" | Open nat | Close nat

fun step :: "atom \<Rightarrow> string \<Rightarrow> nat" where
  "step a [] = 0"
| "step (In cs) (c # s) = (if c \<in> set cs then 1 else 0)"
| "step (NotIn cs) (c # s) = (if c \<in> set cs then 0 else rune_width (c # s))"

type_synonym caps = "nat \<Rightarrow> string"

function run :: "item list \<Rightarrow> string \<Rightarrow> caps \<Rightarrow> caps option" where
  "run [] s c = (if s = [] then Some c else None)"
| "run (Chr x # r) s c =
     (case s of [] \<Rightarrow> None | y # s' \<Rightarrow> if x = y then run r s' c else None)"
| "run (One a # r) s c =
     (if step a s = 0 then None else run r (drop (step a s) s) c)"
| "run (Star a # r) s c =
     (if step a s = 0 then run r s c
      else (case run (Star a # r) (drop (step a s) s) c of
              Some m \<Rightarrow> Some m
            | None \<Rightarrow> run r s c))"
| "run (Opt g # r) s c =
     (case run (g @ r) s c of Some m \<Rightarrow> Some m | None \<Rightarrow> run r s c)"
| "run (Open i # r) s c = run r s (c(i := s))"
| "run (Close i # r) s c = run r s (c(i := take (length (c i) - length s) (c i)))"
  by pat_completeness auto

termination run
  apply (relation "inv_image (less_than <*lex*> less_than)
                    (\<lambda>(r, s, c). (size_list size r, length s))")
            apply auto
  subgoal for a s by (cases s) auto
  done

fun nsub :: "item \<Rightarrow> nat" where
  "nsub (Opt g) = sum_list (map nsub g)"
| "nsub (Open i) = 1"
| "nsub _ = 0"

definition numSubexp :: "item list \<Rightarrow> nat" where
  "numSubexp r = sum_list (map nsub r)"

definition c0 :: caps where
  "c0 = (\<lambda>_. [])"

definition MatchString :: "item list \<Rightarrow> string \<Rightarrow> bool" where
  "MatchString r s = (run r s c0 \<noteq> None)"

text \<open>
  \<^verbatim>\<open>FindStringSubmatch\<close> returns nil when there is no match, and otherwise the whole
  match followed by one string per capture group of the pattern, empty for a group
  that took no part in the match.
\<close>

definition FindStringSubmatch :: "item list \<Rightarrow> string \<Rightarrow> string list" where
  "FindStringSubmatch r s =
     (case run r s c0 of
        None \<Rightarrow> []
      | Some c \<Rightarrow> s # map c [1..<Suc (numSubexp r)])"

definition lit :: "string \<Rightarrow> item list" where
  "lit s = map Chr s"

text \<open>
  \<^verbatim>\<open>^SHA3-([0-9][0-9][0-9]) \(([^)])\)[ ]*=[ ]*([0-9A-Fa-f][0-9A-Fa-f]*)$\<close>
\<close>

definition tagRegexp :: "item list" where
  "tagRegexp =
     lit ''SHA3-'' @ [Open 1, One (In digits), One (In digits), One (In digits), Close 1]
     @ lit '' ('' @ [Open 2, One (NotIn '')''), Close 2] @ lit '')''
     @ [Star (In '' ''), Chr (CHR ''=''), Star (In '' ''),
        Open 3, One (In hexdigits), Star (In hexdigits), Close 3]"

text \<open>
  \<^verbatim>\<open>^([0-9A-Fa-f][0-9A-Fa-f]*)[ ][ ]*([*?])?(.+)$\<close>
\<close>

definition normalRegexp :: "item list" where
  "normalRegexp =
     [Open 1, One (In hexdigits), Star (In hexdigits), Close 1,
      One (In '' ''), Star (In '' ''),
      Opt [Open 2, One (In ''*?''), Close 2],
      Open 3, One (NotIn [LF]), Star (NotIn [LF]), Close 3]"

section \<open>Line grammar\<close>

text \<open>
  \<^verbatim>\<open>strconv.Atoi\<close>: an optional sign and at least one decimal digit, the value within
  the 64-bit range of Go's \<^verbatim>\<open>int\<close>. On a syntax error the number returned is 0, on a
  range error it is the nearest bound.
\<close>

definition digit_val :: "char \<Rightarrow> int" where
  "digit_val c = int (of_char c) - 48"

definition Atoi :: "string \<Rightarrow> int \<times> string option" where
  "Atoi s =
     (let neg = (s \<noteq> [] \<and> hd s = CHR ''-'');
          ds = (if s \<noteq> [] \<and> hd s \<in> {CHR ''+'', CHR ''-''} then tl s else s) in
      if ds = [] \<or> \<not> list_all (\<lambda>c. c \<in> set digits) ds then (0, Some ''invalid syntax'')
      else
        let n = foldl (\<lambda>a c. 10 * a + digit_val c) 0 ds;
            v = (if neg then - n else n) in
        if v < - (2 ^ 63) then (- (2 ^ 63), Some ''value out of range'')
        else if 2 ^ 63 \<le> v then (2 ^ 63 - 1, Some ''value out of range'')
        else (v, None))"

definition validAlgorithm :: "int \<Rightarrow> bool" where
  "validAlgorithm algorithm = (algorithm \<in> {224, 256, 384, 512})"

text \<open>
  The line parsers have six named results; a \<^verbatim>\<open>return\<close> hands back whatever they hold
  at that point, an error included. They are the fields of a record (\<open>p_hash\<close> for
  the result \<^verbatim>\<open>hash\<close>, and so on), all zero at entry.
\<close>

record entry =
  p_hash :: string
  p_fname :: string
  p_algorithm :: int
  p_portable :: bool
  p_binary :: bool
  p_err :: "string option"

definition zero :: entry where
  "zero = \<lparr>p_hash = [], p_fname = [], p_algorithm = 0, p_portable = False, p_binary = False,
            p_err = None\<rparr>"

text \<open>\<^verbatim>\<open>SHA3-XXX (filename) = hex\<close>\<close>

definition parseTagHash :: "string \<Rightarrow> entry" where
  "parseTagHash line =
     (if \<not> MatchString tagRegexp line then zero\<lparr>p_err := Some ''bad checksum line''\<rparr>
      else
        let matches = FindStringSubmatch tagRegexp line in
        if length matches \<noteq> 4 then zero\<lparr>p_err := Some ''bad line''\<rparr>
        else
          let (a, e) = Atoi (matches ! 1) in
          if e \<noteq> None then zero\<lparr>p_algorithm := a, p_err := e\<rparr>
          else if \<not> validAlgorithm a then zero\<lparr>p_algorithm := a, p_err := Some ''bad algorithm''\<rparr>
          else if length (matches ! 2) = 0
          then zero\<lparr>p_algorithm := a, p_fname := matches ! 2, p_err := Some ''bad filename''\<rparr>
          else if int (length (matches ! 3)) \<noteq> a div 4
          then zero\<lparr>p_algorithm := a, p_fname := matches ! 2, p_hash := matches ! 3,
                    p_err := Some ''bad hash''\<rparr>
          else zero\<lparr>p_algorithm := a, p_fname := matches ! 2, p_hash := matches ! 3\<rparr>)"

text \<open>\<^verbatim>\<open>hex filename\<close>\<close>

definition parseNormalHash :: "string \<Rightarrow> entry" where
  "parseNormalHash line =
     (if \<not> MatchString normalRegexp line then zero\<lparr>p_err := Some ''bad checksum line''\<rparr>
      else
        let matches = FindStringSubmatch normalRegexp line in
        if length matches \<noteq> 4 then zero\<lparr>p_err := Some ''bad line''\<rparr>
        else
          let hashlen = int (length (matches ! 1)) in
          if hashlen \<notin> {224 div 4, 256 div 4, 384 div 4, 512 div 4}
          then zero\<lparr>p_hash := matches ! 1, p_err := Some ''bad hash''\<rparr>
          else if length (matches ! 3) = 0
          then zero\<lparr>p_hash := matches ! 1, p_algorithm := hashlen * 4,
                    p_portable := (matches ! 2 = ''?''), p_binary := (matches ! 2 = ''*''),
                    p_fname := matches ! 3, p_err := Some ''bad filename''\<rparr>
          else zero\<lparr>p_hash := matches ! 1, p_algorithm := hashlen * 4,
                    p_portable := (matches ! 2 = ''?''), p_binary := (matches ! 2 = ''*''),
                    p_fname := matches ! 3\<rparr>)"

definition parseHash :: "string \<Rightarrow> bool \<Rightarrow> entry" where
  "parseHash line tag = (if tag then parseTagHash line else parseNormalHash line)"

section \<open>The process and its environment\<close>

text \<open>
  What the program does to the outside is a list of events, in order. A call either
  returns, or ends the process: \<^verbatim>\<open>os.Exit\<close> with a status, or a run-time panic (a
  method call on a nil interface, an index out of range), which ends it with status 2.
\<close>

datatype event = Opened string | Stdout string | Stderr string

datatype 'a outcome = Ret 'a | Exited int | Panicked

definition exit_status :: "'a outcome \<Rightarrow> int" where
  "exit_status r = (case r of Ret _ \<Rightarrow> 0 | Exited n \<Rightarrow> n | Panicked \<Rightarrow> 2)"

text \<open>
  A file is what its readers deliver: \<open>reads\<close> are the byte slices that successive
  \<^verbatim>\<open>Read\<close> calls return, \<open>rerr\<close> the error that ends them (\<open>None\<close> for \<^verbatim>\<open>io.EOF\<close>),
  and \<open>readline\<close> the (part, isPrefix) pairs that \<^verbatim>\<open>bufio.Reader.ReadLine\<close> returns
  before its first error. \<open>open_file\<close> is \<^verbatim>\<open>os.Open\<close>: the file, or the error message.
  \<open>keccak\<close> is the digest of the bytes absorbed, by width; \<open>windows\<close> tells whether
  \<^verbatim>\<open>WINDIR\<close> is set.
\<close>

record File =
  reads :: "string list"
  rerr :: "string option"
  readline :: "(string \<times> bool) list"

record world =
  windows :: bool
  keccak :: "int \<Rightarrow> string \<Rightarrow> string"
  stdin :: File
  open_file :: "string \<Rightarrow> string + File"

definition die :: "string \<Rightarrow> event list \<times> 'a outcome" where
  "die msg = ([Stderr msg], Exited 1)"

definition dieerr :: "string \<Rightarrow> event list \<times> 'a outcome" where
  "dieerr e = die e"

definition after :: "event list \<Rightarrow> event list \<times> 'a outcome \<Rightarrow> event list \<times> 'a outcome" where
  "after ev r = (ev @ fst r, snd r)"

section \<open>Digest of one file\<close>

definition hexchar :: "nat \<Rightarrow> char" where
  "hexchar n = ''0123456789abcdef'' ! (n mod 16)"

text \<open>\<^verbatim>\<open>fmt.Sprintf("%02x", b)\<close>\<close>

definition hex2 :: "char \<Rightarrow> string" where
  "hex2 b = [hexchar (of_char b div 16), hexchar (of_char b mod 16)]"

text \<open>
  The accumulator \<open>h\<close> stays nil when the width is none of the four; otherwise it
  holds the bytes written to it so far. \<open>Write\<close> on nil panics.
\<close>

definition new_hash :: "int \<Rightarrow> string option" where
  "new_hash algorithm = (if algorithm \<in> {224, 256, 384, 512} then Some [] else None)"

primrec read_loop :: "string list \<Rightarrow> string option \<Rightarrow> string option outcome" where
  "read_loop [] h = Ret h"
| "read_loop (b # bs) h =
     (if length b > 0
      then (case h of None \<Rightarrow> Panicked | Some a \<Rightarrow> read_loop bs (Some (a @ b)))
      else read_loop bs h)"

text \<open>
  The text loop reads with \<^verbatim>\<open>ReadString('\n')\<close>: a line with its line feed, or the
  rest of the input together with an error, at which the loop breaks without writing.
\<close>

function text_loop :: "string \<Rightarrow> string option \<Rightarrow> string option outcome" where
  "text_loop s h =
     (if LF \<notin> set s then Ret h
      else
        let line = takeWhile (\<lambda>c. c \<noteq> LF) s @ [LF];
            rest = tl (dropWhile (\<lambda>c. c \<noteq> LF) s);
            linelen = length line;
            line' = (if take linelen line = [CR] then take (linelen - 1) line else line)
        in case h of None \<Rightarrow> Panicked | Some a \<Rightarrow> text_loop rest (Some (a @ line')))"
  by pat_completeness auto

termination text_loop
  apply (relation "measure (\<lambda>(s, h). length s)")
   apply auto
  subgoal for s using length_dropWhile_le [of "\<lambda>c. c \<noteq> LF" s] by (cases s) auto
  done

text \<open>
  \<^verbatim>\<open>os.Stdin\<close> is one file for the whole process, and the deferred \<^verbatim>\<open>f.Close()\<close> closes
  it when \<^verbatim>\<open>hashFile\<close> returns from reading \<^verbatim>\<open>-\<close>. \<open>closed\<close> tells whether that has
  happened; it is passed to \<^verbatim>\<open>hashFile\<close> and returned by it with its two results. Every
  read of the closed file fails.
\<close>

definition closed_stdin :: File where
  "closed_stdin =
     \<lparr>reads = [], rerr = Some ''read /dev/stdin: file already closed'', readline = []\<rparr>"

definition hashFile ::
  "world \<Rightarrow> bool \<Rightarrow> string \<Rightarrow> int \<Rightarrow> bool \<Rightarrow> bool
     \<Rightarrow> event list \<times> (string \<times> string option \<times> bool) outcome"
where
  "hashFile w closed filename algorithm portable binary =
     (case (if filename = ''-'' then Inr (if closed then closed_stdin else stdin w)
            else open_file w filename) of
        Inl e \<Rightarrow> dieerr e
      | Inr f \<Rightarrow>
          let ev = (if filename = ''-'' then [] else [Opened filename]);
              h = new_hash algorithm;
              r = (if binary \<or> portable \<or> \<not> windows w then read_loop (reads f) h
                   else text_loop (concat (reads f)) h)
          in case r of
               Ret h' \<Rightarrow>
                 (case rerr f of
                    Some e \<Rightarrow> after ev (dieerr e)
                  | None \<Rightarrow>
                      (case h' of
                         None \<Rightarrow> (ev, Panicked)
                       | Some a \<Rightarrow>
                           (ev, Ret (concat (map hex2 (keccak w algorithm a)), None,
                                     closed \<or> filename = ''-''))))
             | Exited n \<Rightarrow> (ev, Exited n)
             | Panicked \<Rightarrow> (ev, Panicked))"

section \<open>Generating a manifest\<close>

fun dec :: "nat \<Rightarrow> string" where
  "dec n = (if n < 10 then [digits ! n] else dec (n div 10) @ [digits ! (n mod 10)])"

text \<open>The verb \<^verbatim>\<open>%d\<close>.\<close>

definition itoa :: "int \<Rightarrow> string" where
  "itoa i = (if i < 0 then CHR ''-'' # dec (nat (- i)) else dec (nat i))"

text \<open>The line that \<^verbatim>\<open>hashFiles\<close> prints for one file, without its final line feed.\<close>

definition output_line :: "bool \<Rightarrow> int \<Rightarrow> bool \<Rightarrow> bool \<Rightarrow> string \<Rightarrow> string \<Rightarrow> string" where
  "output_line tag algorithm portable binary filename hash =
     (if tag then ''SHA3-'' @ itoa algorithm @ '' ('' @ filename @ '') = '' @ hash
      else hash @ ''  '' @ (if portable then ''?'' else if binary then ''*'' else []) @ filename)"

fun hashFiles_loop ::
  "world \<Rightarrow> bool \<Rightarrow> string list \<Rightarrow> int \<Rightarrow> bool \<Rightarrow> bool \<Rightarrow> bool \<Rightarrow> string option
     \<Rightarrow> event list \<times> string option outcome"
where
  "hashFiles_loop w closed [] algorithm portable binary tag err = ([], Ret err)"
| "hashFiles_loop w closed (filename # files) algorithm portable binary tag err =
     (case hashFile w closed filename algorithm portable binary of
        (ev, Ret (hash, err2, closed')) \<Rightarrow>
          (case err2 of
             Some e \<Rightarrow>
               after ev (hashFiles_loop w closed' files algorithm portable binary tag (Some e))
           | None \<Rightarrow>
               after (ev @ [Stdout (output_line tag algorithm portable binary filename hash)])
                 (hashFiles_loop w closed' files algorithm portable binary tag err))
      | (ev, Exited n) \<Rightarrow> (ev, Exited n)
      | (ev, Panicked) \<Rightarrow> (ev, Panicked))"

definition hashFiles ::
  "world \<Rightarrow> string list \<Rightarrow> int \<Rightarrow> bool \<Rightarrow> bool \<Rightarrow> bool \<Rightarrow> event list \<times> string option outcome"
where
  "hashFiles w files algorithm portable binary tag =
     (if length files = 0 then ([], Ret (Some ''missing files to check''))
      else hashFiles_loop w False files algorithm portable binary tag None)"

section \<open>Reading a manifest\<close>

type_synonym hashes = "string list \<times> string list \<times> int list \<times> bool list \<times> bool list"

fun readHashes_loop ::
  "bool \<Rightarrow> bool \<Rightarrow> (string \<times> bool) list \<Rightarrow> string \<Rightarrow> hashes \<Rightarrow> event list \<times> hashes outcome"
where
  "readHashes_loop tag strict [] line acc = ([], Ret acc)"
| "readHashes_loop tag strict ((part, prefix) # rl) line
       (hashes, filenames, algorithms, portables, binaries) =
     (if \<not> prefix then
        let e = parseHash (line @ part) tag in
        (case (if strict then p_err e else None) of
           Some msg \<Rightarrow> dieerr msg
         | None \<Rightarrow>
             readHashes_loop tag strict rl []
               (hashes @ [p_hash e], filenames @ [p_fname e], algorithms @ [p_algorithm e],
                portables @ [p_portable e], binaries @ [p_binary e]))
      else readHashes_loop tag strict rl (line @ part)
             (hashes, filenames, algorithms, portables, binaries))"

definition readHashes :: "world \<Rightarrow> string \<Rightarrow> bool \<Rightarrow> bool \<Rightarrow> event list \<times> hashes outcome" where
  "readHashes w hashesFilename tag strict =
     (case open_file w hashesFilename of
        Inl e \<Rightarrow> dieerr e
      | Inr f \<Rightarrow>
          after [Opened hashesFilename]
            (readHashes_loop tag strict (readline f) [] ([], [], [], [], [])))"

section \<open>Verifying a manifest\<close>

definition hexval :: "char \<Rightarrow> nat option" where
  "hexval c =
     (if c \<in> set ''0123456789'' then Some (of_char c - 48)
      else if c \<in> set ''abcdef'' then Some (of_char c - 87)
      else if c \<in> set ''ABCDEF'' then Some (of_char c - 55)
      else None)"

text \<open>
  \<^verbatim>\<open>hex.DecodeString\<close>: the bytes decoded before the first error, and the error, which
  is an invalid byte, or an odd length once every character read was a hex digit.
\<close>

fun DecodeString :: "string \<Rightarrow> string \<times> string option" where
  "DecodeString [] = ([], None)"
| "DecodeString [p] =
     ([], if hexval p = None then Some ''invalid byte'' else Some ''odd length hex string'')"
| "DecodeString (p # q # r) =
     (case (hexval p, hexval q) of
        (Some a, Some b) \<Rightarrow>
          (case DecodeString r of (bs, e) \<Rightarrow> (char_of (16 * a + b) # bs, e))
      | _ \<Rightarrow> ([], Some ''invalid byte''))"

text \<open>
  Modelled from the spec: \<^verbatim>\<open>securecompare.Equal\<close> belongs to a package that is not
  among the sources; the specification calls it a constant-time equality check on the
  two byte strings. Only its result is modelled.
\<close>

definition Equal :: "string \<Rightarrow> string \<Rightarrow> bool" where
  "Equal a b = (a = b)"

text \<open>Indexing a slice panics out of range.\<close>

definition index :: "'a list \<Rightarrow> nat \<Rightarrow> 'a option" where
  "index xs i = (if i < length xs then Some (xs ! i) else None)"

text \<open>\<^verbatim>\<open>flag || xs[i]\<close>: the slice is read only when the flag is unset.\<close>

definition or_index :: "bool \<Rightarrow> bool list \<Rightarrow> nat \<Rightarrow> bool option" where
  "or_index flag xs i = (if flag then Some True else index xs i)"

text \<open>
  One turn of the loop of \<^verbatim>\<open>checkFiles\<close> for each index of \<^verbatim>\<open>filenames\<close>. The loop
  either makes \<^verbatim>\<open>checkFiles\<close> return an error (\<open>Inl\<close>) or runs to its end with the two
  counters (\<open>Inr\<close>); \<open>portable\<close> and \<open>binary\<close> below are the values of the two disjunctions
  passed to \<^verbatim>\<open>hashFile\<close>.
\<close>

fun checkFiles_loop ::
  "world \<Rightarrow> bool \<Rightarrow> hashes \<Rightarrow> bool \<Rightarrow> bool \<Rightarrow> bool \<Rightarrow> bool \<Rightarrow> nat list \<Rightarrow> nat \<Rightarrow> nat
     \<Rightarrow> event list \<times> (string + nat \<times> nat) outcome"
where
  "checkFiles_loop w closed hs binaryFlag portableFlag strictFlag statusFlag [] good bad =
     ([], Ret (Inr (good, bad)))"
| "checkFiles_loop w closed (expectedHexHashes, filenames, algorithms, portables, binaries)
       binaryFlag portableFlag strictFlag statusFlag (i # is) good bad =
     (let hs = (expectedHexHashes, filenames, algorithms, portables, binaries);
          filename = filenames ! i;
          continue = (\<lambda>cl g b. checkFiles_loop w cl hs binaryFlag portableFlag strictFlag
                                   statusFlag is g b)
      in
      case (index algorithms i, or_index portableFlag portables i,
            or_index binaryFlag binaries i) of
        (Some algorithm, Some portable, Some binary) \<Rightarrow>
          (case hashFile w closed filename algorithm portable binary of
             (ev, Ret (actualHashHex, err, closed')) \<Rightarrow>
               (case err of
                  Some e \<Rightarrow> if strictFlag then (ev, Ret (Inl e)) else after ev (continue closed' good bad)
                | None \<Rightarrow>
                    (case DecodeString actualHashHex of
                       (actualHash, Some e) \<Rightarrow>
                         if strictFlag then (ev, Ret (Inl e)) else after ev (continue closed' good bad)
                     | (actualHash, None) \<Rightarrow>
                         (case index expectedHexHashes i of
                            None \<Rightarrow> (ev, Panicked)
                          | Some expectedHex \<Rightarrow>
                              (case DecodeString expectedHex of
                                 (expectedHash, Some e) \<Rightarrow>
                                   if strictFlag then (ev, Ret (Inl e))
                                   else after ev (continue closed' good bad)
                               | (expectedHash, None) \<Rightarrow>
                                   if Equal actualHash expectedHash
                                   then after (ev @ (if \<not> statusFlag
                                                      then [Stdout (filename @ '': OK'')] else []))
                                          (continue closed' (good + 1) bad)
                                   else after (ev @ (if \<not> statusFlag
                                                      then [Stdout (filename @ '': FAILED'')] else []))
                                          (continue closed' good (bad + 1))))))
           | (ev, Exited n) \<Rightarrow> (ev, Exited n)
           | (ev, Panicked) \<Rightarrow> (ev, Panicked))
      | _ \<Rightarrow> ([], Panicked))"

text \<open>\<^verbatim>\<open>fmt.Println\<close> of a slice of strings.\<close>

definition show_slice :: "string list \<Rightarrow> string" where
  "show_slice xs = ''['' @ concat (map (\<lambda>(k, x). (if k = 0 then [] else '' '') @ x)
                                    (zip [0..<length xs] xs)) @ '']''"

definition checkFiles ::
  "world \<Rightarrow> string \<Rightarrow> bool \<Rightarrow> bool \<Rightarrow> bool \<Rightarrow> bool \<Rightarrow> bool \<Rightarrow> event list \<times> string option outcome"
where
  "checkFiles w checkFilename binaryFlag portableFlag tagFlag strictFlag statusFlag =
     after [Stdout (''checking  '' @ checkFilename)]
       (case readHashes w checkFilename tagFlag strictFlag of
          (ev, Ret (expectedHexHashes, filenames, algorithms, portables, binaries)) \<Rightarrow>
            after (ev @ [Stdout (''checking files '' @ show_slice filenames)])
              (case checkFiles_loop w False
                      (expectedHexHashes, filenames, algorithms, portables, binaries)
                      binaryFlag portableFlag strictFlag statusFlag [0..<length filenames] 0 0 of
                 (ev', Ret (Inl e)) \<Rightarrow> (ev', Ret (Some e))
               | (ev', Ret (Inr (good, bad))) \<Rightarrow>
                   (ev' @ (if \<not> statusFlag \<and> bad > 0
                           then [Stderr (''sha3sum: WARNING '' @ itoa (int bad) @ '' of ''
                                          @ itoa (int (good + bad))
                                          @ '' computed checksums did NOT match'')]
                           else []),
                    Ret None)
               | (ev', Exited n) \<Rightarrow> (ev', Exited n)
               | (ev', Panicked) \<Rightarrow> (ev', Panicked))
        | (ev, Exited n) \<Rightarrow> (ev, Exited n)
        | (ev, Panicked) \<Rightarrow> (ev, Panicked))"

section \<open>The command line\<close>

text \<open>
  \<^verbatim>\<open>goopt\<close> hands each option to \<^verbatim>\<open>main\<close> as a pointer; \<open>None\<close> is the nil pointer,
  and reading through it panics. \<open>args\<close> are the remaining arguments.
\<close>

record options =
  algorithm_opt :: "int option"
  binary_opt :: "bool option"
  check_opt :: "string option"
  portable_opt :: "bool option"
  text_opt :: "bool option"
  tag_opt :: "bool option"
  status_opt :: "bool option"
  quiet_opt :: "bool option"
  strict_opt :: "bool option"
  version_opt :: "bool option"
  args :: "string list"

text \<open>\<^verbatim>\<open>p != nil && *p\<close>\<close>

definition flag_set :: "bool option \<Rightarrow> bool" where
  "flag_set p = (case p of None \<Rightarrow> False | Some b \<Rightarrow> b)"

definition main :: "world \<Rightarrow> options \<Rightarrow> event list \<times> unit outcome" where
  "main w opts =
     (case algorithm_opt opts of
        None \<Rightarrow> ([], Panicked)
      | Some algorithm \<Rightarrow>
          if algorithm_opt opts = None \<and> \<not> validAlgorithm algorithm then die ''bad algorithm''
          else
            let binaryFlag = flag_set (binary_opt opts);
                portableFlag = flag_set (portable_opt opts);
                textFlag = flag_set (text_opt opts);
                tagFlag = flag_set (tag_opt opts);
                statusFlag = flag_set (status_opt opts);
                quietFlag = flag_set (quiet_opt opts);
                strictFlag = flag_set (strict_opt opts);
                versionFlag = flag_set (version_opt opts)
            in
            if textFlag \<and> binaryFlag then die ''cannot specify both text and binary''
            else
              (case check_opt opts of
                 None \<Rightarrow> ([], Panicked)
               | Some check \<Rightarrow>
                   if (check_opt opts = None \<and> check \<noteq> [])
                      \<and> (statusFlag \<or> quietFlag \<or> strictFlag)
                   then die ''silent, warn, strict and/or quiet can only be used with check''
                   else
                     let files = (if length (args opts) = 0 then [''-''] else args opts) in
                     if versionFlag then ([Stdout ''sha3sum 1.0''], Ret ())
                     else
                       (case (if check = []
                              then hashFiles w files algorithm portableFlag binaryFlag tagFlag
                              else checkFiles w check binaryFlag portableFlag tagFlag strictFlag
                                     statusFlag) of
                          (ev, Ret err) \<Rightarrow> if err \<noteq> None then (ev, Exited 1) else (ev, Ret ())
                        | (ev, Exited n) \<Rightarrow> (ev, Exited n)
                        | (ev, Panicked) \<Rightarrow> (ev, Panicked))))"

section \<open>The second program\<close>

text \<open>
  The second source file is the same program without transfer modes. Its
  \<^verbatim>\<open>validAlgorithm\<close>, \<^verbatim>\<open>tagRegexp\<close> and \<^verbatim>\<open>parseTagHash\<close> are those above, the two mode
  results apart, which it does not have and which stay unset in the record. The
  functions that differ carry the suffix \<open>_p0\<close>.

  \<^verbatim>\<open>^([0-9A-Fa-f][0-9A-Fa-f]*)[ ][ ]*(.+)$\<close>
\<close>

definition normalRegexp_p0 :: "item list" where
  "normalRegexp_p0 =
     [Open 1, One (In hexdigits), Star (In hexdigits), Close 1,
      One (In '' ''), Star (In '' ''),
      Open 2, One (NotIn [LF]), Star (NotIn [LF]), Close 2]"

definition parseNormalHash_p0 :: "string \<Rightarrow> entry" where
  "parseNormalHash_p0 line =
     (if \<not> MatchString normalRegexp_p0 line then zero\<lparr>p_err := Some ''bad checksum line''\<rparr>
      else
        let matches = FindStringSubmatch normalRegexp_p0 line in
        if length matches \<noteq> 4 then zero\<lparr>p_err := Some ''bad line''\<rparr>
        else
          let hashlen = int (length (matches ! 1)) in
          if hashlen \<notin> {224 div 4, 256 div 4, 384 div 4, 512 div 4}
          then zero\<lparr>p_hash := matches ! 1, p_err := Some ''bad hash''\<rparr>
          else if length (matches ! 2) = 0
          then zero\<lparr>p_hash := matches ! 1, p_algorithm := hashlen * 4,
                    p_fname := matches ! 2, p_err := Some ''bad filename''\<rparr>
          else zero\<lparr>p_hash := matches ! 1, p_algorithm := hashlen * 4,
                    p_fname := matches ! 2\<rparr>)"

definition parseHash_p0 :: "string \<Rightarrow> bool \<Rightarrow> entry" where
  "parseHash_p0 line tag = (if tag then parseTagHash line else parseNormalHash_p0 line)"

definition hashFile_p0 ::
  "world \<Rightarrow> bool \<Rightarrow> string \<Rightarrow> int
     \<Rightarrow> event list \<times> (string \<times> string option \<times> bool) outcome"
where
  "hashFile_p0 w closed filename algorithm =
     (case (if filename = ''-'' then Inr (if closed then closed_stdin else stdin w)
            else open_file w filename) of
        Inl e \<Rightarrow> dieerr e
      | Inr f \<Rightarrow>
          let ev = (if filename = ''-'' then [] else [Opened filename]) in
          case read_loop (reads f) (new_hash algorithm) of
            Ret h' \<Rightarrow>
              (case rerr f of
                 Some e \<Rightarrow> after ev (dieerr e)
               | None \<Rightarrow>
                   (case h' of
                      None \<Rightarrow> (ev, Panicked)
                    | Some a \<Rightarrow>
                        (ev, Ret (concat (map hex2 (keccak w algorithm a)), None,
                                  closed \<or> filename = ''-''))))
          | Exited n \<Rightarrow> (ev, Exited n)
          | Panicked \<Rightarrow> (ev, Panicked))"

fun hashFiles_loop_p0 ::
  "world \<Rightarrow> bool \<Rightarrow> string list \<Rightarrow> int \<Rightarrow> bool \<Rightarrow> string option
     \<Rightarrow> event list \<times> string option outcome"
where
  "hashFiles_loop_p0 w closed [] algorithm tag err = ([], Ret err)"
| "hashFiles_loop_p0 w closed (filename # files) algorithm tag err =
     (case hashFile_p0 w closed filename algorithm of
        (ev, Ret (hash, err2, closed')) \<Rightarrow>
          (case err2 of
             Some e \<Rightarrow> after ev (hashFiles_loop_p0 w closed' files algorithm tag (Some e))
           | None \<Rightarrow>
               after (ev @ [Stdout (if tag
                                    then ''SHA3-'' @ itoa algorithm @ '' ('' @ filename @ '') = '' @ hash
                                    else hash @ ''  '' @ filename)])
                 (hashFiles_loop_p0 w closed' files algorithm tag err))
      | (ev, Exited n) \<Rightarrow> (ev, Exited n)
      | (ev, Panicked) \<Rightarrow> (ev, Panicked))"

definition hashFiles_p0 ::
  "world \<Rightarrow> string list \<Rightarrow> int \<Rightarrow> bool \<Rightarrow> event list \<times> string option outcome"
where
  "hashFiles_p0 w files algorithm tag =
     (if length files = 0 then ([], Ret (Some ''missing files to check''))
      else hashFiles_loop_p0 w False files algorithm tag None)"

type_synonym hashes_p0 = "string list \<times> string list \<times> int list"

fun readHashes_loop_p0 ::
  "bool \<Rightarrow> bool \<Rightarrow> (string \<times> bool) list \<Rightarrow> string \<Rightarrow> hashes_p0
     \<Rightarrow> event list \<times> hashes_p0 outcome"
where
  "readHashes_loop_p0 tag strict [] line acc = ([], Ret acc)"
| "readHashes_loop_p0 tag strict ((part, prefix) # rl) line (hashes, filenames, algorithms) =
     (if \<not> prefix then
        let e = parseHash_p0 (line @ part) tag in
        (case (if strict then p_err e else None) of
           Some msg \<Rightarrow> dieerr msg
         | None \<Rightarrow>
             readHashes_loop_p0 tag strict rl []
               (hashes @ [p_hash e], filenames @ [p_fname e], algorithms @ [p_algorithm e]))
      else readHashes_loop_p0 tag strict rl (line @ part) (hashes, filenames, algorithms))"

definition readHashes_p0 ::
  "world \<Rightarrow> string \<Rightarrow> bool \<Rightarrow> bool \<Rightarrow> event list \<times> hashes_p0 outcome"
where
  "readHashes_p0 w hashesFilename tag strict =
     (case open_file w hashesFilename of
        Inl e \<Rightarrow> dieerr e
      | Inr f \<Rightarrow>
          after [Opened hashesFilename]
            (readHashes_loop_p0 tag strict (readline f) [] ([], [], [])))"

fun checkFiles_loop_p0 ::
  "world \<Rightarrow> bool \<Rightarrow> hashes_p0 \<Rightarrow> bool \<Rightarrow> bool \<Rightarrow> nat list \<Rightarrow> nat \<Rightarrow> nat
     \<Rightarrow> event list \<times> (string + nat \<times> nat) outcome"
where
  "checkFiles_loop_p0 w closed hs strictFlag statusFlag [] good bad =
     ([], Ret (Inr (good, bad)))"
| "checkFiles_loop_p0 w closed (expectedHexHashes, filenames, algorithms) strictFlag statusFlag
       (i # is) good bad =
     (let filename = filenames ! i in
      case index algorithms i of
        None \<Rightarrow> ([], Panicked)
      | Some algorithm \<Rightarrow>
          (case hashFile_p0 w closed filename algorithm of
             (ev, Ret (actualHashHex, err, closed')) \<Rightarrow>
               if err \<noteq> None \<and> strictFlag then (ev, Ret (Inl (the err)))
               else
                 (case DecodeString actualHashHex of
                    (actualHash, err2) \<Rightarrow>
                      if err2 \<noteq> None \<and> strictFlag then (ev, Ret (Inl (the err2)))
                      else
                        (case index expectedHexHashes i of
                           None \<Rightarrow> (ev, Panicked)
                         | Some expectedHex \<Rightarrow>
                             (case DecodeString expectedHex of
                                (expectedHash, err3) \<Rightarrow>
                                  if err3 \<noteq> None \<and> strictFlag then (ev, Ret (Inl (the err3)))
                                  else if err = None \<and> err2 = None \<and> err3 = None
                                          \<and> Equal actualHash expectedHash
                                  then after (ev @ (if \<not> statusFlag
                                                     then [Stdout (filename @ '': OK'')] else []))
                                         (checkFiles_loop_p0 w closed'
                                            (expectedHexHashes, filenames, algorithms)
                                            strictFlag statusFlag is (good + 1) bad)
                                  else after (ev @ (if \<not> statusFlag
                                                     then [Stdout (filename @ '': FAILED'')] else []))
                                         (checkFiles_loop_p0 w closed'
                                            (expectedHexHashes, filenames, algorithms)
                                            strictFlag statusFlag is good (bad + 1)))))
           | (ev, Exited n) \<Rightarrow> (ev, Exited n)
           | (ev, Panicked) \<Rightarrow> (ev, Panicked)))"

definition checkFiles_p0 ::
  "world \<Rightarrow> string \<Rightarrow> bool \<Rightarrow> bool \<Rightarrow> bool \<Rightarrow> event list \<times> string option outcome"
where
  "checkFiles_p0 w checkFilename tagFlag strictFlag statusFlag =
     (case readHashes_p0 w checkFilename tagFlag strictFlag of
        (ev, Ret (expectedHexHashes, filenames, algorithms)) \<Rightarrow>
          after ev
            (case checkFiles_loop_p0 w False (expectedHexHashes, filenames, algorithms)
                    strictFlag statusFlag [0..<length filenames] 0 0 of
               (ev', Ret (Inl e)) \<Rightarrow> (ev', Ret (Some e))
             | (ev', Ret (Inr (good, bad))) \<Rightarrow>
                 (ev' @ (if \<not> statusFlag \<and> bad > 0
                         then [Stderr (''sha3sum: WARNING '' @ itoa (int bad) @ '' of ''
                                        @ itoa (int (good + bad))
                                        @ '' computed checksums did NOT match'')]
                         else []),
                  Ret None)
             | (ev', Exited n) \<Rightarrow> (ev', Exited n)
             | (ev', Panicked) \<Rightarrow> (ev', Panicked))
      | (ev, Exited n) \<Rightarrow> (ev, Exited n)
      | (ev, Panicked) \<Rightarrow> (ev, Panicked))"

text \<open>
  The options of the second program are \<open>algorithm_opt\<close>, \<open>check_opt\<close>, \<open>tag_opt\<close>,
  \<open>version_opt\<close>, \<open>status_opt\<close>, \<open>quiet_opt\<close> and \<open>strict_opt\<close>.
\<close>

definition main_p0 :: "world \<Rightarrow> options \<Rightarrow> event list \<times> unit outcome" where
  "main_p0 w opts =
     (if flag_set (version_opt opts) then ([Stdout ''sha3sum 1.0''], Ret ())
      else if algorithm_opt opts = None \<or> \<not> validAlgorithm (the (algorithm_opt opts))
      then die ''bad algorithm''
      else
        let algorithm = the (algorithm_opt opts);
            statusFlag = flag_set (status_opt opts);
            quietFlag = flag_set (quiet_opt opts);
            strictFlag = flag_set (strict_opt opts);
            tagFlag = flag_set (tag_opt opts)
        in
        if check_opt opts = None \<or> the (check_opt opts) = [] then
          if statusFlag \<or> quietFlag \<or> strictFlag
          then die ''silent, warn, strict and/or quiet can only be used with check''
          else
            let files = (if length (args opts) = 0 then [''-''] else args opts) in
            (case hashFiles_p0 w files algorithm tagFlag of
               (ev, Ret err) \<Rightarrow> if err \<noteq> None then (ev, Exited 1) else (ev, Ret ())
             | (ev, Exited n) \<Rightarrow> (ev, Exited n)
             | (ev, Panicked) \<Rightarrow> (ev, Panicked))
        else
          (case checkFiles_p0 w (the (check_opt opts)) tagFlag strictFlag statusFlag of
             (ev, Ret err) \<Rightarrow> if err \<noteq> None then (ev, Exited 1) else (ev, Ret ())
           | (ev, Exited n) \<Rightarrow> (ev, Exited n)
           | (ev, Panicked) \<Rightarrow> (ev, Panicked)))"

section \<open>Notions used to state the properties\<close>

text \<open>
  The physical lines that a reader delivers: the parts handed out by \<^verbatim>\<open>ReadLine\<close>,
  joined up to and including each part that is not a prefix. \<open>line\<close> is what has been
  read of the current line.
\<close>

fun physical_lines :: "(string \<times> bool) list \<Rightarrow> string \<Rightarrow> string list" where
  "physical_lines [] line = []"
| "physical_lines ((part, prefix) # rl) line =
     (if prefix then physical_lines rl (line @ part)
      else (line @ part) # physical_lines rl [])"

text \<open>The five slices that hold, line by line, what \<^verbatim>\<open>parseHash\<close> returned.\<close>

definition entries :: "bool \<Rightarrow> string list \<Rightarrow> hashes" where
  "entries tag ls =
     (map (\<lambda>l. p_hash (parseHash l tag)) ls, map (\<lambda>l. p_fname (parseHash l tag)) ls,
      map (\<lambda>l. p_algorithm (parseHash l tag)) ls, map (\<lambda>l. p_portable (parseHash l tag)) ls,
      map (\<lambda>l. p_binary (parseHash l tag)) ls)"

definition append5 :: "hashes \<Rightarrow> hashes \<Rightarrow> hashes" where
  "append5 a b =
     (case (a, b) of
        ((h, f, al, p, bi), (h', f', al', p', bi')) \<Rightarrow>
          (h @ h', f @ f', al @ al', p @ p', bi @ bi'))"

text \<open>
  The end of the plain pattern, named for the proofs: \<^verbatim>\<open>(.+)\<close> as group \<open>i\<close>, and
  \<^verbatim>\<open>([*?])?(.+)\<close>.
\<close>

definition dotplus :: "nat \<Rightarrow> item list" where
  "dotplus i = [Open i, One (NotIn [LF]), Star (NotIn [LF]), Close i]"

definition R2 :: "item list" where
  "R2 = Opt [Open 2, One (In ''*?''), Close 2] # dotplus 3"

section \<open>A small world for the examples\<close>

text \<open>
  The examples run the program in a world with four data files and five manifests.
  The digest of the examples is a stand-in: the first width/8 bytes of the input,
  filled up with zero bytes.
\<close>

definition demo_keccak :: "int \<Rightarrow> string \<Rightarrow> string" where
  "demo_keccak a s = take (nat (a div 8)) (s @ replicate (nat (a div 8)) (CHR 0x00))"

definition data_file :: "string \<Rightarrow> File" where
  "data_file s = \<lparr>reads = [s], rerr = None, readline = []\<rparr>"

definition manifest_file :: "string list \<Rightarrow> File" where
  "manifest_file ls = \<lparr>reads = [], rerr = None, readline = map (\<lambda>l. (l, False)) ls\<rparr>"

definition demo :: world where
  "demo =
     \<lparr>windows = False, keccak = demo_keccak, stdin = data_file [],
      open_file = (\<lambda>name.
        if name = ''abc.txt'' then Inr (data_file ''abc'')
        else if name = ''f'' then Inr (data_file ''abc'')
        else if name = ''crlf.txt'' then Inr (data_file (''a'' @ [CR, LF]))
        else if name = ''lf.txt'' then Inr (data_file (''a'' @ [LF]))
        else if name = ''sums'' then
          Inr (manifest_file [replicate 64 (CHR ''f'') @ ''  abc.txt''])
        else if name = ''sums2'' then
          Inr (manifest_file [replicate 64 (CHR ''f'') @ ''  missing.txt'',
                              ''616263'' @ replicate 58 (CHR ''0'') @ ''  abc.txt''])
        else if name = ''tagged'' then Inr (manifest_file [''SHA3-256 (f) = abcd''])
        else if name = ''tagsums'' then
          Inr (manifest_file [''SHA3-256 (f) = '' @ replicate 64 (CHR ''f'')])
        else if name = ''tagsums2'' then
          Inr (manifest_file [''SHA3-256 (x) = '' @ replicate 64 (CHR ''f''),
                              ''SHA3-256 (f) = 616263'' @ replicate 58 (CHR ''0'')])
        else Inl (''open '' @ name @ '': no such file or directory''))\<rparr>"

text \<open>The options as \<^verbatim>\<open>goopt\<close> leaves them when the command line is empty.\<close>

definition defaults :: options where
  "defaults =
     \<lparr>algorithm_opt = Some 256, binary_opt = Some False, check_opt = Some [],
      portable_opt = Some False, text_opt = Some False, tag_opt = Some False,
      status_opt = Some False, quiet_opt = Some False, strict_opt = Some False,
      version_opt = Some False, args = []\<rparr>"

section \<open>Facts about the matcher\<close>

lemma rune_width_Nil [simp]: "rune_width [] = 0"
  by simp

lemma rune_width_pos [simp]: "0 < rune_width (y # s)"
  by simp

lemma rune_width_le: "rune_width s \<le> length s"
  by (cases s) (auto simp: cont_prefix_def)

text \<open>The bytes of a rune after its first are continuation bytes.\<close>

lemma rune_tail_high:
  "x \<in> set (take (rune_width (y # s) - 1) s) \<Longrightarrow> byte_in 0x80 0xBF x"
  by (auto simp: cont_prefix_def list_all_iff split: if_splits)

declare rune_width.simps [simp del]

declare run.simps [simp del]

text \<open>The first rune of a string, taken alone, is one rune.\<close>

lemma cont_prefix_take: "n \<le> k \<Longrightarrow> cont_prefix n (take k t) = cont_prefix n t"
  by (auto simp add: cont_prefix_def min_def take_take)

lemma rune_width_take: "rune_width (take (rune_width s) s) = rune_width s"
proof (cases s)
  case Nil then show ?thesis by simp
next
  case (Cons c t)
  have "rune_width (c # t) = 1 \<or> rune_width (c # t) = 2 \<or> rune_width (c # t) = 3
    \<or> rune_width (c # t) = 4"
    by (simp add: rune_width.simps)
  then consider "rune_width (c # t) = 1" | "rune_width (c # t) = 2" | "rune_width (c # t) = 3"
    | "rune_width (c # t) = 4"
    by blast
  then show ?thesis
  proof cases
    case 1
    then show ?thesis unfolding Cons
      by (simp add: rune_width.simps cont_prefix_def split: if_splits)
  next
    case 2
    then have "byte_in 0xC2 0xDF c \<and> cont_prefix 1 t"
      by (simp add: rune_width.simps split: if_splits)
    then show ?thesis unfolding Cons 2
      by (simp add: rune_width.simps take_Cons' cont_prefix_take)
  next
    case 3
    then have a: "\<not> (byte_in 0xC2 0xDF c \<and> cont_prefix 1 t)"
      and b: "byte_in 0xE0 0xEF c \<and> cont_prefix 2 t \<and> second_ok c (hd t)"
      by (simp_all add: rune_width.simps split: if_splits)
    from b have "t \<noteq> []" by (auto simp add: cont_prefix_def)
    then have "hd (take 2 t) = hd t" by (cases t) simp_all
    with a b show ?thesis unfolding Cons 3
      by (simp add: rune_width.simps take_Cons' cont_prefix_take)
  next
    case 4
    then have a: "\<not> (byte_in 0xC2 0xDF c \<and> cont_prefix 1 t)"
      and a': "\<not> (byte_in 0xE0 0xEF c \<and> cont_prefix 2 t \<and> second_ok c (hd t))"
      and b: "byte_in 0xF0 0xF4 c \<and> cont_prefix 3 t \<and> second_ok c (hd t)"
      by (simp_all add: rune_width.simps split: if_splits)
    from b have "t \<noteq> []" by (auto simp add: cont_prefix_def)
    then have "hd (take 3 t) = hd t" by (cases t) simp_all
    with a a' b show ?thesis unfolding Cons 4
      by (simp add: rune_width.simps take_Cons' cont_prefix_take)
  qed
qed

lemma rune_width_ascii: "byte_in 0 0x7F c \<Longrightarrow> rune_width (c # s) = 1"
  by (simp add: rune_width.simps byte_in_def)

lemma run_Nil [simp]: "run [] s c = (if s = [] then Some c else None)"
  by (simp add: run.simps)

lemma run_Chr_Nil [simp]: "run (Chr x # r) [] c = None"
  by (simp add: run.simps)

lemma run_Chr_Cons [simp]: "run (Chr x # r) (y # s) c = (if x = y then run r s c else None)"
  by (simp add: run.simps)

lemma run_One_Nil [simp]: "run (One a # r) [] c = None"
  by (simp add: run.simps)

lemma run_One_In [simp]:
  "run (One (In cs) # r) (y # s) c = (if y \<in> set cs then run r s c else None)"
  by (simp add: run.simps)

lemma run_One_NotIn [simp]:
  "run (One (NotIn cs) # r) (y # s) c =
     (if y \<in> set cs then None else run r (drop (rune_width (y # s)) (y # s)) c)"
  using rune_width_pos [of y s] by (simp add: run.simps del: rune_width_pos)

lemma run_Star_Nil [simp]: "run (Star a # r) [] c = run r [] c"
  by (simp add: run.simps)

lemma run_Star_In:
  "run (Star (In cs) # r) (y # s) c =
     (if y \<in> set cs
      then (case run (Star (In cs) # r) s c of Some m \<Rightarrow> Some m | None \<Rightarrow> run r (y # s) c)
      else run r (y # s) c)"
  by (simp add: run.simps)

lemma run_Opt [simp]:
  "run (Opt g # r) s c = (case run (g @ r) s c of Some m \<Rightarrow> Some m | None \<Rightarrow> run r s c)"
  by (simp add: run.simps)

lemma run_Open [simp]: "run (Open i # r) s c = run r s (c(i := s))"
  by (simp add: run.simps)

lemma run_Close [simp]:
  "run (Close i # r) s c = run r s (c(i := take (length (c i) - length s) (c i)))"
  by (simp add: run.simps)

text \<open>A star whose continuation cannot start inside the class takes the whole run.\<close>

lemma star_det:
  assumes "\<And>y s' c'. y \<in> set cs \<Longrightarrow> run r (y # s') c' = None"
  shows "run (Star (In cs) # r) s c = run r (dropWhile (\<lambda>y. y \<in> set cs) s) c"
proof (induction s)
  case Nil
  show ?case by simp
next
  case (Cons y s)
  show ?case
  proof (cases "y \<in> set cs")
    case True
    have "run r (y # s) c = None" using assms True by simp
    then show ?thesis using True Cons by (simp add: run_Star_In split: option.splits)
  next
    case False
    then show ?thesis by (simp add: run_Star_In)
  qed
qed

lemma space_not_hex [simp]: "CHR '' '' \<notin> set hexdigits"
  by (simp add: hexdigits_def)

lemma hex_not_space [simp]: "y \<in> set hexdigits \<Longrightarrow> y \<noteq> CHR '' ''"
  by (auto simp: hexdigits_def)


lemma run_Chr_Some:
  "(run (Chr x # r) s c = Some m) = (\<exists>s'. s = x # s' \<and> run r s' c = Some m)"
  by (cases s) auto

lemma run_One_In_Some:
  "(run (One (In cs) # r) s c = Some m) = (\<exists>y s'. s = y # s' \<and> y \<in> set cs \<and> run r s' c = Some m)"
  by (cases s) auto

lemma run_One_NotIn_Some:
  "(run (One (NotIn cs) # r) s c = Some m) =
     (\<exists>y s'. s = y # s' \<and> y \<notin> set cs \<and> run r (drop (rune_width s) s) c = Some m)"
  by (cases s) (auto simp del: rune_width.simps)

lemma star_sp_eq:
  "run (Star (In '' '') # Chr (CHR ''='') # r) s c =
     run (Chr (CHR ''='') # r) (dropWhile (\<lambda>y. y \<in> set '' '') s) c"
  by (rule star_det) simp

lemma star_sp_hex:
  "run (Star (In '' '') # Open i # One (In hexdigits) # r) s c =
     run (Open i # One (In hexdigits) # r) (dropWhile (\<lambda>y. y \<in> set '' '') s) c"
  by (rule star_det) auto

lemma star_hex_end:
  "run [Star (In hexdigits), Close i] s c = run [Close i] (dropWhile (\<lambda>y. y \<in> set hexdigits) s) c"
  by (rule star_det) simp

lemma star_hex_sp:
  "run (Star (In hexdigits) # Close i # One (In '' '') # r) s c =
     run (Close i # One (In '' '') # r) (dropWhile (\<lambda>y. y \<in> set hexdigits) s) c"
  by (rule star_det) auto



lemma dropWhile_all: "\<forall>x\<in>set xs. P x \<Longrightarrow> dropWhile P xs = []"
  by simp

lemma tag_run:
  assumes "run tagRegexp line c0 = Some m"
  shows "\<exists>sp1 sp2. line = ''SHA3-'' @ m 1 @ '' ('' @ m 2 @ '')'' @ sp1 @ ''='' @ sp2 @ m 3
           \<and> length (m 1) = 3 \<and> set (m 1) \<subseteq> set digits
           \<and> m 2 \<noteq> [] \<and> hd (m 2) \<noteq> CHR '')''
           \<and> m 3 \<noteq> [] \<and> set (m 3) \<subseteq> set hexdigits
           \<and> set sp1 \<subseteq> {CHR '' ''} \<and> set sp2 \<subseteq> {CHR '' ''}"
proof -
  have "\<exists>y ya yb yc t k l yd h.
    line = ''SHA3-'' @ [y, ya, yb] @ '' ('' @ yc # t
    \<and> y \<in> set digits \<and> ya \<in> set digits \<and> yb \<in> set digits
    \<and> yc \<noteq> CHR '')''
    \<and> drop (rune_width (yc # t)) (yc # t) = CHR '')'' # k
    \<and> dropWhile (\<lambda>y. y = CHR '' '') k = CHR ''='' # l
    \<and> dropWhile (\<lambda>y. y = CHR '' '') l = yd # h
    \<and> yd \<in> set hexdigits \<and> (\<forall>x\<in>set h. x \<in> set hexdigits)
    \<and> m 1 = [y, ya, yb]
    \<and> m 2 = take (rune_width (yc # t)) (yc # t)
    \<and> m 3 = yd # h"
    using assms rune_width_le [of "yc # t" for yc t]
    by (clarsimp simp: tagRegexp_def lit_def run_Chr_Some run_One_In_Some run_One_NotIn_Some
          star_sp_eq star_sp_hex star_hex_end dropWhile_all
        split: if_splits)
  then obtain y ya yb yc t k l yd h where
    line: "line = ''SHA3-'' @ [y, ya, yb] @ '' ('' @ yc # t"
    and dig: "y \<in> set digits" "ya \<in> set digits" "yb \<in> set digits"
    and yc: "yc \<noteq> CHR '')''"
    and t: "drop (rune_width (yc # t)) (yc # t) = CHR '')'' # k"
    and k: "dropWhile (\<lambda>y. y = CHR '' '') k = CHR ''='' # l"
    and l: "dropWhile (\<lambda>y. y = CHR '' '') l = yd # h"
    and hex: "yd \<in> set hexdigits" "\<forall>x\<in>set h. x \<in> set hexdigits"
    and m1: "m 1 = [y, ya, yb]"
    and m2: "m 2 = take (rune_width (yc # t)) (yc # t)"
    and m3: "m 3 = yd # h"
    by blast
  let ?sp = "\<lambda>y. y = CHR '' ''"
  have "yc # t = m 2 @ CHR '')'' # k"
    using t m2 append_take_drop_id [of "rune_width (yc # t)" "yc # t"] by simp
  moreover have "k = takeWhile ?sp k @ CHR ''='' # l"
    using k takeWhile_dropWhile_id [of ?sp k] by simp
  moreover have "l = takeWhile ?sp l @ m 3"
    using l m3 takeWhile_dropWhile_id [of ?sp l] by simp
  ultimately have "line = ''SHA3-'' @ m 1 @ '' ('' @ m 2 @ '')'' @ takeWhile ?sp k @ ''='' @ takeWhile ?sp l @ m 3"
    using line m1 by simp
  moreover have "set (takeWhile ?sp k) \<subseteq> {CHR '' ''}" "set (takeWhile ?sp l) \<subseteq> {CHR '' ''}"
    by (auto dest: set_takeWhileD)
  moreover have "m 2 \<noteq> []" "hd (m 2) \<noteq> CHR '')''"
    using m2 yc rune_width_pos [of yc t] by (auto simp del: rune_width_pos simp: take_Cons')
  ultimately show ?thesis
    using m1 m3 dig hex by (intro exI [of _ "takeWhile ?sp k"] exI [of _ "takeWhile ?sp l"]) auto
qed

text \<open>The second group of \<^verbatim>\<open>tagRegexp\<close> is one rune.\<close>

lemma tag_run_name:
  assumes "run tagRegexp line c0 = Some m"
  shows "rune_width (m 2) = length (m 2)"
proof -
  have "\<exists>yc t. m 2 = take (rune_width (yc # t)) (yc # t)"
    using assms rune_width_le [of "yc # t" for yc t]
    by (clarsimp simp: tagRegexp_def lit_def run_Chr_Some run_One_In_Some run_One_NotIn_Some
          star_sp_eq star_sp_hex star_hex_end dropWhile_all
        split: if_splits)
      blast
  then obtain s where "m 2 = take (rune_width s) s" by blast
  then show ?thesis
    using rune_width_take [of s] rune_width_le [of s] by simp
qed

lemma numSubexp_tag: "numSubexp tagRegexp = 3"
  by (simp add: numSubexp_def tagRegexp_def lit_def)

lemma find_tag:
  "run tagRegexp line c0 = Some m \<Longrightarrow> FindStringSubmatch tagRegexp line = [line, m 1, m 2, m 3]"
  by (simp add: FindStringSubmatch_def numSubexp_tag upt_rec numeral_2_eq_2 numeral_3_eq_3)

lemma parseTagHash_ok:
  assumes "p_err (parseTagHash line) = None"
  obtains m a where "run tagRegexp line c0 = Some m" "Atoi (m 1) = (a, None)"
    "validAlgorithm a" "int (length (m 3)) = a div 4"
    "parseTagHash line = zero\<lparr>p_algorithm := a, p_fname := m 2, p_hash := m 3\<rparr>"
proof -
  from assms obtain m where m: "run tagRegexp line c0 = Some m"
    by (cases "run tagRegexp line c0") (auto simp: parseTagHash_def MatchString_def zero_def)
  note f = find_tag [OF m]
  obtain a e where at: "Atoi (m 1) = (a, e)" by (cases "Atoi (m 1)")
  from assms m f at have e: "e = None" and va: "validAlgorithm a"
    and len: "int (length (m 3)) = a div 4"
    by (auto simp: parseTagHash_def MatchString_def zero_def Let_def split: if_splits)
  from tag_run [OF m] have "m 2 \<noteq> []" by blast
  with m f at e va len
  have "parseTagHash line = zero\<lparr>p_algorithm := a, p_fname := m 2, p_hash := m 3\<rparr>"
    by (simp add: parseTagHash_def MatchString_def Let_def)
  with m at e va len show thesis by (intro that) simp_all
qed

section \<open>The tagged grammar validates what it accepts\<close>

text \<open>
  Claim C4. When \<^verbatim>\<open>parseTagHash\<close> returns without an error, the width it returns is
  224, 256, 384 or 512, the line has the shape \<^verbatim>\<open>SHA3-ddd (f) = hex\<close> (any number of
  spaces around the equals sign) where the three digits denote that width, the digest
  returned is the run of hex digits ending the line and has exactly width/4
  characters, and the file name returned is the non-empty text between the
  parentheses. Hence a line that breaks one of these conditions gets an error.
\<close>

theorem C4_tagged_parse_validates:
  assumes "p_err (parseTagHash line) = None"
  shows "p_algorithm (parseTagHash line) \<in> {224, 256, 384, 512}
    \<and> int (length (p_hash (parseTagHash line))) = p_algorithm (parseTagHash line) div 4
    \<and> set (p_hash (parseTagHash line)) \<subseteq> set hexdigits
    \<and> p_fname (parseTagHash line) \<noteq> []
    \<and> (\<exists>d sp1 sp2.
          line = ''SHA3-'' @ d @ '' ('' @ p_fname (parseTagHash line) @ '')'' @ sp1 @ ''=''
                   @ sp2 @ p_hash (parseTagHash line)
          \<and> Atoi d = (p_algorithm (parseTagHash line), None)
          \<and> set sp1 \<subseteq> {CHR '' ''} \<and> set sp2 \<subseteq> {CHR '' ''})"
proof -
  from assms obtain m a where m: "run tagRegexp line c0 = Some m"
    and at: "Atoi (m 1) = (a, None)" and va: "validAlgorithm a"
    and len: "int (length (m 3)) = a div 4"
    and p: "parseTagHash line = zero\<lparr>p_algorithm := a, p_fname := m 2, p_hash := m 3\<rparr>"
    by (rule parseTagHash_ok)
  from tag_run [OF m] obtain sp1 sp2 where sh:
    "line = ''SHA3-'' @ m 1 @ '' ('' @ m 2 @ '')'' @ sp1 @ ''='' @ sp2 @ m 3"
    "m 2 \<noteq> []" "set (m 3) \<subseteq> set hexdigits" "set sp1 \<subseteq> {CHR '' ''}" "set sp2 \<subseteq> {CHR '' ''}"
    by blast
  from va have "a \<in> {224, 256, 384, 512}" by (simp add: validAlgorithm_def)
  with p at len sh show ?thesis
    by (simp add: zero_def) blast
qed

theorem C4_tagged_parse_validates_witness:
  "p_err (parseTagHash (''SHA3-224 (f) = '' @ replicate 56 (CHR ''a''))) = None
   \<and> p_algorithm (parseTagHash (''SHA3-224 (f) = '' @ replicate 56 (CHR ''a'')))
         \<in> {224, 256, 384, 512}
   \<and> int (length (p_hash (parseTagHash (''SHA3-224 (f) = '' @ replicate 56 (CHR ''a''))))) = 56
   \<and> p_fname (parseTagHash (''SHA3-224 (f) = '' @ replicate 56 (CHR ''a''))) = ''f''"
proof -
  let ?l = "''SHA3-224 (f) = '' @ replicate 56 (CHR ''a'')"
  have h: "p_err (parseTagHash ?l) = None" by code_simp
  have a: "p_algorithm (parseTagHash ?l) = 224" by code_simp
  have f: "p_fname (parseTagHash ?l) = ''f''" by code_simp
  from C4_tagged_parse_validates [OF h] a f h show ?thesis by simp
qed

section \<open>Reading a manifest: one entry per line\<close>


lemma readHashes_loop_Ret:
  "readHashes_loop tag strict rl line acc = (ev, Ret r)
     \<Longrightarrow> ev = [] \<and> r = append5 acc (entries tag (physical_lines rl line))"
proof (induction tag strict rl line acc rule: readHashes_loop.induct)
  case (1 tag strict line acc)
  then show ?case by (cases acc) (auto simp add: append5_def entries_def)
next
  case (2 tag strict part prefix rl line hashes filenames algorithms portables binaries)
  then show ?case
    by (auto simp add: append5_def entries_def Let_def dieerr_def die_def split: if_splits option.splits)
qed


lemma length_entries:
  "entries tag ls = (hs, fs, as, ps, bs) \<Longrightarrow>
     length hs = length ls \<and> length fs = length ls \<and> length as = length ls
     \<and> length ps = length ls \<and> length bs = length ls"
  by (auto simp: entries_def)

text \<open>
  Claim C10. Whenever \<^verbatim>\<open>readHashes\<close> returns, whatever the tag and strict flags, the
  manifest could be opened and the five slices returned have the length of the list
  of physical lines read; element \<open>i\<close> of each slice is the corresponding result of
  \<^verbatim>\<open>parseHash\<close> on line \<open>i\<close>.
\<close>

theorem C10_five_slices_aligned:
  assumes "readHashes w name tag strict = (ev, Ret (hashes, filenames, algorithms, portables, binaries))"
  shows "\<exists>f. open_file w name = Inr f
    \<and> length hashes = length (physical_lines (readline f) [])
    \<and> length filenames = length hashes \<and> length algorithms = length hashes
    \<and> length portables = length hashes \<and> length binaries = length hashes
    \<and> hashes = map (\<lambda>l. p_hash (parseHash l tag)) (physical_lines (readline f) [])
    \<and> filenames = map (\<lambda>l. p_fname (parseHash l tag)) (physical_lines (readline f) [])
    \<and> algorithms = map (\<lambda>l. p_algorithm (parseHash l tag)) (physical_lines (readline f) [])
    \<and> portables = map (\<lambda>l. p_portable (parseHash l tag)) (physical_lines (readline f) [])
    \<and> binaries = map (\<lambda>l. p_binary (parseHash l tag)) (physical_lines (readline f) [])"
proof (cases "open_file w name")
  case (Inl e)
  with assms show ?thesis by (simp add: readHashes_def dieerr_def die_def)
next
  case (Inr f)
  with assms obtain ev' where
    "readHashes_loop tag strict (readline f) [] ([], [], [], [], [])
       = (ev', Ret (hashes, filenames, algorithms, portables, binaries))"
    by (cases "readHashes_loop tag strict (readline f) [] ([], [], [], [], [])")
       (auto simp: readHashes_def after_def)
  from readHashes_loop_Ret [OF this] Inr show ?thesis
    by (simp add: append5_def entries_def)
qed

theorem C10_five_slices_aligned_witness:
  "readHashes demo ''sums'' False True =
     ([Opened ''sums''], Ret ([replicate 64 (CHR ''f'')], [''abc.txt''], [256], [False], [False]))
   \<and> (\<exists>f. open_file demo ''sums'' = Inr f \<and> length (physical_lines (readline f) []) = 1)"
proof -
  have h: "readHashes demo ''sums'' False True =
     ([Opened ''sums''], Ret ([replicate 64 (CHR ''f'')], [''abc.txt''], [256], [False], [False]))"
    by code_simp
  from C10_five_slices_aligned [OF h] obtain f where
    "open_file demo ''sums'' = Inr f" "length [replicate 64 (CHR ''f'')] = length (physical_lines (readline f) [])"
    by blast
  then have "\<exists>f. open_file demo ''sums'' = Inr f \<and> length (physical_lines (readline f) []) = 1"
    by (intro exI [of _ f]) simp
  with h show ?thesis by (rule conjI)
qed

text \<open>The reader of the second program keeps its three slices aligned in the same way.\<close>

lemma readHashes_loop_p0_Ret:
  "readHashes_loop_p0 tag strict rl line acc = (ev, Ret r)
     \<Longrightarrow> ev = []
       \<and> r = (case acc of (hs, fs, as) \<Rightarrow>
               (hs @ map (\<lambda>l. p_hash (parseHash_p0 l tag)) (physical_lines rl line),
                fs @ map (\<lambda>l. p_fname (parseHash_p0 l tag)) (physical_lines rl line),
                as @ map (\<lambda>l. p_algorithm (parseHash_p0 l tag)) (physical_lines rl line)))"
proof (induction tag strict rl line acc rule: readHashes_loop_p0.induct)
  case (1 tag strict line acc)
  then show ?case by (cases acc) auto
next
  case (2 tag strict part prefix rl line hashes filenames algorithms)
  then show ?case
    by (auto simp add: Let_def dieerr_def die_def split: if_splits option.splits)
qed

lemma readHashes_p0_aligned:
  assumes "readHashes_p0 w name tag strict = (ev, Ret (hashes, filenames, algorithms))"
  shows "\<exists>f. open_file w name = Inr f
    \<and> hashes = map (\<lambda>l. p_hash (parseHash_p0 l tag)) (physical_lines (readline f) [])
    \<and> filenames = map (\<lambda>l. p_fname (parseHash_p0 l tag)) (physical_lines (readline f) [])
    \<and> algorithms = map (\<lambda>l. p_algorithm (parseHash_p0 l tag)) (physical_lines (readline f) [])"
proof (cases "open_file w name")
  case (Inl e)
  with assms show ?thesis by (simp add: readHashes_p0_def dieerr_def die_def)
next
  case (Inr f)
  with assms obtain ev' where
    "readHashes_loop_p0 tag strict (readline f) [] ([], [], [])
       = (ev', Ret (hashes, filenames, algorithms))"
    by (cases "readHashes_loop_p0 tag strict (readline f) [] ([], [], [])")
       (auto simp: readHashes_p0_def after_def)
  from readHashes_loop_p0_Ret [OF this] Inr show ?thesis by simp
qed

section \<open>Reading a manifest: strict and lenient\<close>





section \<open>The plain grammar\<close>

lemma run_Star_NotIn:
  "run (Star (NotIn cs) # r) (y # s) c =
     (if y \<in> set cs then run r (y # s) c
      else (case run (Star (NotIn cs) # r) (drop (rune_width (y # s)) (y # s)) c of
              Some m \<Rightarrow> Some m
            | None \<Rightarrow> run r (y # s) c))"
  using rune_width_pos [of y s] by (simp add: run.simps del: rune_width_pos)

lemma LF_low: "\<not> byte_in 0x80 0xBF LF"
  by (simp add: byte_in_def LF_def)

lemma LF_after_rune:
  assumes "LF \<in> set s"
  shows "LF \<in> set (drop (rune_width (y # s) - 1) s)"
proof -
  have "LF \<notin> set (take (rune_width (y # s) - 1) s)"
    using rune_tail_high [of LF y s] LF_low by blast
  with assms show ?thesis
    by (metis Un_iff append_take_drop_id set_append)
qed

lemma drop_rune: "drop (rune_width (y # s)) (y # s) = drop (rune_width (y # s) - 1) s"
  using rune_width_pos [of y s] by (cases "rune_width (y # s)") (simp_all del: rune_width_pos)

lemma dot_star_some:
  "LF \<notin> set s \<Longrightarrow> run [Star (NotIn [LF]), Close i] s c = Some c"
proof (induction s rule: length_induct)
  case (1 s)
  show ?case
  proof (cases s)
    case Nil
    then show ?thesis by simp
  next
    case (Cons y t)
    have "length (drop (rune_width (y # t) - 1) t) < length s" using Cons by simp
    moreover have "LF \<notin> set (drop (rune_width (y # t) - 1) t)"
      using "1.prems" Cons by (auto dest: in_set_dropD)
    ultimately have "run [Star (NotIn [LF]), Close i] (drop (rune_width (y # t) - 1) t) c = Some c"
      using "1.IH" by blast
    then show ?thesis using Cons "1.prems"
      by (auto simp add: run_Star_NotIn drop_rune)
  qed
qed

lemma dot_star_none:
  "LF \<in> set s \<Longrightarrow> run [Star (NotIn [LF]), Close i] s c = None"
proof (induction s rule: length_induct)
  case (1 s)
  show ?case
  proof (cases s)
    case Nil
    with "1.prems" show ?thesis by simp
  next
    case (Cons y t)
    show ?thesis
    proof (cases "y = LF")
      case True
      with Cons show ?thesis by (simp add: run_Star_NotIn)
    next
      case False
      with "1.prems" Cons have "LF \<in> set t" by simp
      then have "LF \<in> set (drop (rune_width (y # t) - 1) t)" by (rule LF_after_rune)
      moreover have "length (drop (rune_width (y # t) - 1) t) < length s" using Cons by simp
      ultimately have "run [Star (NotIn [LF]), Close i] (drop (rune_width (y # t) - 1) t) c = None"
        using "1.IH" by blast
      then show ?thesis using Cons False
        by (simp add: run_Star_NotIn drop_rune)
    qed
  qed
qed

lemma dot_plus:
  "run (dotplus i) s c = (if s \<noteq> [] \<and> LF \<notin> set s then Some (c(i := s)) else None)"
proof (cases s)
  case Nil
  then show ?thesis by (simp add: dotplus_def)
next
  case (Cons y t)
  show ?thesis
  proof (cases "LF \<in> set s")
    case True
    then have "y \<noteq> LF \<Longrightarrow> LF \<in> set (drop (rune_width (y # t) - 1) t)"
      using Cons LF_after_rune [of t y] by auto
    then show ?thesis using True Cons
      by (auto simp add: dotplus_def drop_rune dot_star_none)
  next
    case False
    then have "LF \<notin> set (drop (rune_width (y # t) - 1) t)"
      using Cons by (auto dest: in_set_dropD)
    then show ?thesis using False Cons
      by (auto simp add: dotplus_def drop_rune dot_star_some)
  qed
qed

lemma R2_eq:
  "run R2 t c =
     (if t = [] \<or> LF \<in> set t then None
      else if hd t \<in> set ''*?'' \<and> tl t \<noteq> [] then Some (c(2 := [hd t], 3 := tl t))
      else Some (c(3 := t)))"
proof (cases t)
  case Nil
  then show ?thesis by (simp add: R2_def dot_plus)
next
  case (Cons y u)
  have LFm: "LF \<notin> set ''*?''" by (simp add: LF_def)
  show ?thesis using Cons LFm
    by (auto simp add: R2_def dot_plus)
qed

lemma star_sp_R2:
  "run (Star (In '' '') # R2) s c =
     (if s = [] \<or> LF \<in> set s then None
      else if dropWhile (\<lambda>y. y = CHR '' '') s \<noteq> [] then run R2 (dropWhile (\<lambda>y. y = CHR '' '') s) c
      else Some (c(3 := '' '')))"
proof (induction s)
  case Nil
  show ?case by (simp add: R2_eq)
next
  case (Cons y s)
  have sp: "LF \<noteq> CHR '' ''" by (simp add: LF_def)
  show ?case
  proof (cases "y = CHR '' ''")
    case False
    then show ?thesis by (simp add: run_Star_In R2_eq)
  next
    case True
    show ?thesis using True Cons sp
      by (auto simp add: run_Star_In R2_eq split: option.splits if_splits dest: set_dropWhileD)
  qed
qed

lemma normal_split: "normalRegexp = [Open 1, One (In hexdigits), Star (In hexdigits), Close 1, One (In '' ''), Star (In '' '')] @ R2"
  by (simp add: normalRegexp_def R2_def dotplus_def)

lemma take_minus_dropWhile:
  "take (length (x # l) - length (dropWhile P l)) (x # l) = x # takeWhile P l"
proof -
  have "length l = length (takeWhile P l) + length (dropWhile P l)"
    by (metis length_append takeWhile_dropWhile_id)
  then have "length (x # l) - length (dropWhile P l) = Suc (length (takeWhile P l))"
    by simp
  moreover have "take (length (takeWhile P l)) l = takeWhile P l"
    by (metis append_eq_conv_conj takeWhile_dropWhile_id)
  ultimately show ?thesis by simp
qed

lemma normal_run:
  "run normalRegexp line c0 =
     (if takeWhile (\<lambda>y. y \<in> set hexdigits) line = []
         \<or> dropWhile (\<lambda>y. y \<in> set hexdigits) line = []
         \<or> hd (dropWhile (\<lambda>y. y \<in> set hexdigits) line) \<noteq> CHR '' '' then None
      else run (Star (In '' '') # R2) (tl (dropWhile (\<lambda>y. y \<in> set hexdigits) line))
             (c0(1 := takeWhile (\<lambda>y. y \<in> set hexdigits) line)))"
proof (cases line)
  case Nil
  then show ?thesis by (simp add: normal_split)
next
  case (Cons x l)
  show ?thesis
  proof (cases "x \<in> set hexdigits")
    case False
    with Cons show ?thesis by (simp add: normal_split)
  next
    case True
    show ?thesis
    proof (cases "dropWhile (\<lambda>y. y \<in> set hexdigits) l")
      case Nil
      with \<open>line = x # l\<close> True show ?thesis
        by (simp add: normal_split star_hex_sp del: dropWhile_eq_Nil_conv)
    next
      case (Cons y u)
      with \<open>line = x # l\<close> True take_minus_dropWhile [of x l "\<lambda>y. y \<in> set hexdigits"]
      show ?thesis by (simp add: normal_split star_hex_sp)
    qed
  qed
qed

lemma R2_caps: "run R2 t c = Some m \<Longrightarrow> m 1 = c 1 \<and> m 3 \<noteq> []"
  by (clarsimp simp: R2_eq split: if_splits)

lemma star_sp_R2_caps:
  "run (Star (In '' '') # R2) s c = Some m \<Longrightarrow> m 1 = c 1 \<and> m 3 \<noteq> []"
  by (clarsimp simp: star_sp_R2 split: if_splits dest!: R2_caps)

lemma normal_caps:
  assumes "run normalRegexp line c0 = Some m"
  shows "m 1 = takeWhile (\<lambda>y. y \<in> set hexdigits) line \<and> m 3 \<noteq> []"
proof -
  from assms have "run (Star (In '' '') # R2) (tl (dropWhile (\<lambda>y. y \<in> set hexdigits) line))
             (c0(1 := takeWhile (\<lambda>y. y \<in> set hexdigits) line)) = Some m"
    by (simp add: normal_run split: if_splits)
  from star_sp_R2_caps [OF this] show ?thesis by simp
qed

lemma numSubexp_normal: "numSubexp normalRegexp = 3"
  by (simp add: numSubexp_def normalRegexp_def)

lemma find_normal:
  "run normalRegexp line c0 = Some m
     \<Longrightarrow> FindStringSubmatch normalRegexp line = [line, m 1, m 2, m 3]"
  by (simp add: FindStringSubmatch_def numSubexp_normal upt_rec numeral_2_eq_2 numeral_3_eq_3)

lemma parseNormalHash_match:
  assumes "run normalRegexp line c0 = Some m"
  shows "parseNormalHash line =
     (if int (length (m 1)) \<notin> {56, 64, 96, 128}
      then zero\<lparr>p_hash := m 1, p_err := Some ''bad hash''\<rparr>
      else zero\<lparr>p_hash := m 1, p_algorithm := int (length (m 1)) * 4,
                p_portable := (m 2 = ''?''), p_binary := (m 2 = ''*''), p_fname := m 3\<rparr>)"
proof -
  from normal_caps [OF assms] have "length (m 3) \<noteq> 0" by simp
  then show ?thesis using assms
    by (simp add: parseNormalHash_def MatchString_def find_normal Let_def)
qed

lemma parseNormalHash_rejects_other_lengths:
  assumes "length (takeWhile (\<lambda>y. y \<in> set hexdigits) line) \<notin> {56, 64, 96, 128}"
  shows "p_err (parseNormalHash line) \<noteq> None"
proof (cases "run normalRegexp line c0")
  case None
  then show ?thesis by (simp add: parseNormalHash_def MatchString_def zero_def)
next
  case (Some m)
  with assms normal_caps [OF Some] show ?thesis
    by (simp add: parseNormalHash_match zero_def)
qed

lemma hex_prefix:
  assumes "set h \<subseteq> set hexdigits"
  shows "takeWhile (\<lambda>y. y \<in> set hexdigits) (h @ CHR '' '' # s) = h"
    and "dropWhile (\<lambda>y. y \<in> set hexdigits) (h @ CHR '' '' # s) = CHR '' '' # s"
  using assms by (auto simp: takeWhile_append2 dropWhile_append2 subset_iff)

lemma normal_run_line:
  assumes "h \<noteq> []" "set h \<subseteq> set hexdigits"
  shows "run normalRegexp (h @ CHR '' '' # s) c0 = run (Star (In '' '') # R2) s (c0(1 := h))"
  using assms by (simp add: normal_run hex_prefix)

lemma star_sp_R2_some:
  assumes "s \<noteq> []" "LF \<notin> set s"
  shows "\<exists>m. run (Star (In '' '') # R2) s c = Some m"
  using assms by (auto simp: star_sp_R2 R2_eq dest: set_dropWhileD)

lemma parseNormalHash_accepts:
  assumes w: "int (length h) \<in> {56, 64, 96, 128}"
    and h: "set h \<subseteq> set hexdigits"
    and k: "2 \<le> k" and f: "f \<noteq> []" "LF \<notin> set f"
  shows "p_err (parseNormalHash (h @ replicate k (CHR '' '') @ f)) = None
    \<and> p_algorithm (parseNormalHash (h @ replicate k (CHR '' '') @ f)) = int (length h) * 4
    \<and> p_hash (parseNormalHash (h @ replicate k (CHR '' '') @ f)) = h"
proof -
  let ?s = "replicate (k - 1) (CHR '' '') @ f"
  have line: "h @ replicate k (CHR '' '') @ f = h @ CHR '' '' # ?s"
    using k by (cases k) simp_all
  have hne: "h \<noteq> []" using w by auto
  have sp: "LF \<noteq> CHR '' ''" by (simp add: LF_def)
  have "?s \<noteq> []" "LF \<notin> set ?s" using f sp by auto
  from star_sp_R2_some [OF this] obtain m where
    "run (Star (In '' '') # R2) ?s (c0(1 := h)) = Some m" by blast
  then have m: "run normalRegexp (h @ CHR '' '' # ?s) c0 = Some m"
    using hne h by (simp add: normal_run_line)
  from normal_caps [OF m] h have m1: "m 1 = h" by (simp add: hex_prefix)
  show ?thesis
    unfolding line parseNormalHash_match [OF m] using w m1 by (simp add: zero_def)
qed

lemma plain_run:
  assumes h: "h \<noteq> []" "set h \<subseteq> set hexdigits"
    and f: "f \<noteq> []" "LF \<notin> set f" "hd f \<notin> set '' *?''"
    and md: "md \<in> {[], ''*'', ''?''}"
  shows "run normalRegexp (h @ ''  '' @ md @ f) c0 = Some (c0(1 := h, 2 := md, 3 := f))"
proof -
  have sp: "LF \<noteq> CHR '' ''" "LF \<noteq> CHR ''*''" "LF \<noteq> CHR ''?''" by (simp_all add: LF_def)
  have c02: "c0(1 := h, 2 := [], 3 := f) = c0(1 := h, 3 := f)"
    by (auto simp: c0_def fun_eq_iff)
  have "run normalRegexp (h @ CHR '' '' # (CHR '' '' # md @ f)) c0
          = Some (c0(1 := h, 2 := md, 3 := f))"
    unfolding normal_run_line [OF h]
    using f md sp c02 by (cases f) (auto simp: star_sp_R2 R2_eq)
  then show ?thesis by simp
qed

lemma plain_roundtrip:
  assumes w: "w \<in> {224, 256, 384, 512}" and len: "int (length h) = w div 4"
    and h: "set h \<subseteq> set hexdigits"
    and f: "f \<noteq> []" "LF \<notin> set f" "hd f \<notin> set '' *?''"
    and mode: "\<not> (p \<and> b)"
  shows "parseHash (output_line False w p b f h) False =
           zero\<lparr>p_hash := h, p_fname := f, p_algorithm := w, p_portable := p, p_binary := b\<rparr>"
proof -
  define md where "md = (if p then ''?'' else if b then ''*'' else [])"
  have hne: "h \<noteq> []" using w len by auto
  have md: "md \<in> {[], ''*'', ''?''}" by (simp add: md_def)
  have line: "output_line False w p b f h = h @ ''  '' @ md @ f"
    by (simp add: output_line_def md_def)
  have pm: "(md = ''?'') = p" "(md = ''*'') = b"
    using mode by (auto simp: md_def)
  note m = plain_run [OF hne h f md]
  have "int (length h) \<in> {56, 64, 96, 128}" "int (length h) * 4 = w"
    using w len by auto
  with parseNormalHash_match [OF m] pm show ?thesis
    unfolding parseHash_def line by (simp add: zero_def)
qed

section \<open>The tagged line is read back in one way only\<close>

lemma span_unique:
  assumes "\<forall>x\<in>set xs. P x" "zs = [] \<or> \<not> P (hd zs)"
  shows "takeWhile P (xs @ zs) = xs" and "dropWhile P (xs @ zs) = zs"
proof -
  show "takeWhile P (xs @ zs) = xs"
    using assms by (cases zs) (simp_all add: takeWhile_append2)
  show "dropWhile P (xs @ zs) = zs"
    using assms by (cases zs) (simp_all add: dropWhile_append2)
qed

lemma span_eq:
  assumes "xs @ zs = xs' @ zs'"
    and "\<forall>x\<in>set xs. P x" "zs = [] \<or> \<not> P (hd zs)"
    and "\<forall>x\<in>set xs'. P x" "zs' = [] \<or> \<not> P (hd zs')"
  shows "xs = xs' \<and> zs = zs'"
proof -
  have "takeWhile P (xs @ zs) = xs" "dropWhile P (xs @ zs) = zs"
    using assms(2,3) by (rule span_unique)+
  moreover have "takeWhile P (xs' @ zs') = xs'" "dropWhile P (xs' @ zs') = zs'"
    using assms(4,5) by (rule span_unique)+
  ultimately show ?thesis unfolding assms(1) by simp
qed

lemma hd_spaces_eq:
  assumes "set u \<subseteq> {CHR '' ''}"
  shows "hd (u @ CHR ''='' # v) \<notin> set hexdigits"
proof (cases u)
  case Nil
  then show ?thesis by (simp add: hexdigits_def)
next
  case (Cons a w)
  with assms have "a = CHR '' ''" by simp
  with Cons show ?thesis by simp
qed

lemma split_hex_tail:
  assumes R: "rev m3 @ (rev sp2 @ CHR ''='' # z) = rev h @ (CHR '' '' # y)"
    and m3: "set m3 \<subseteq> set hexdigits" and h: "set h \<subseteq> set hexdigits"
    and sp2: "set sp2 \<subseteq> {CHR '' ''}"
  shows "rev m3 = rev h \<and> rev sp2 @ CHR ''='' # z = CHR '' '' # y"
proof (rule span_eq [where P = "\<lambda>y. y \<in> set hexdigits"])
  show "rev m3 @ (rev sp2 @ CHR ''='' # z) = rev h @ (CHR '' '' # y)"
    by (rule R)
  show "\<forall>x\<in>set (rev m3). x \<in> set hexdigits" using m3 by auto
  show "\<forall>x\<in>set (rev h). x \<in> set hexdigits" using h by auto
  show "rev sp2 @ CHR ''='' # z = [] \<or> hd (rev sp2 @ CHR ''='' # z) \<notin> set hexdigits"
    using sp2 hd_spaces_eq [of "rev sp2" z] by simp
  show "CHR '' '' # y = [] \<or> hd (CHR '' '' # y) \<notin> set hexdigits"
    by simp
qed

lemma split_space_tail:
  assumes R: "rev sp @ (a # z) = [CHR '' ''] @ (a # y)"
    and sp: "set sp \<subseteq> {CHR '' ''}" and c: "a \<noteq> CHR '' ''"
  shows "rev sp = [CHR '' ''] \<and> a # z = a # y"
proof (rule span_eq [where P = "\<lambda>y. y = CHR '' ''"])
  show "rev sp @ (a # z) = [CHR '' ''] @ (a # y)" by (rule R)
  show "\<forall>x\<in>set (rev sp). x = CHR '' ''" using sp by auto
  show "\<forall>x\<in>set [CHR '' '']. x = CHR '' ''" by simp
  show "a # z = [] \<or> hd (a # z) \<noteq> CHR '' ''" using c by simp
  show "a # y = [] \<or> hd (a # y) \<noteq> CHR '' ''" using c by simp
qed

lemma rev_tagged:
  assumes E: "m2 @ '')'' @ sp1 @ ''='' @ sp2 @ m3 = f @ '') = '' @ h"
  shows "rev m3 @ rev sp2 @ CHR ''='' # rev sp1 @ CHR '')'' # rev m2
           = rev h @ (CHR '' '' # CHR ''='' # CHR '' '' # CHR '')'' # rev f)"
proof -
  have "rev (m2 @ '')'' @ sp1 @ ''='' @ sp2 @ m3) = rev (f @ '') = '' @ h)"
    by (simp only: E)
  then show ?thesis
    by simp
qed

lemma tagged_line_unique:
  assumes E: "m2 @ '')'' @ sp1 @ ''='' @ sp2 @ m3 = f @ '') = '' @ h"
    and m3: "set m3 \<subseteq> set hexdigits" and h: "set h \<subseteq> set hexdigits"
    and sp1: "set sp1 \<subseteq> {CHR '' ''}" and sp2: "set sp2 \<subseteq> {CHR '' ''}"
  shows "m2 = f \<and> m3 = h"
proof -
  have R: "rev m3 @ (rev sp2 @ CHR ''='' # (rev sp1 @ CHR '')'' # rev m2))
            = rev h @ (CHR '' '' # (CHR ''='' # CHR '' '' # CHR '')'' # rev f))"
    using rev_tagged [OF E] by simp
  from split_hex_tail [OF R m3 h sp2]
  have a: "rev m3 = rev h"
    and R2: "rev sp2 @ (CHR ''='' # (rev sp1 @ CHR '')'' # rev m2))
              = [CHR '' ''] @ (CHR ''='' # (CHR '' '' # CHR '')'' # rev f))"
    by simp_all
  from split_space_tail [OF R2 sp2]
  have R3: "rev sp1 @ (CHR '')'' # rev m2) = [CHR '' ''] @ (CHR '')'' # rev f)"
    by simp
  from split_space_tail [OF R3 sp1] have "rev m2 = rev f" by simp
  with a show ?thesis by simp
qed

lemma itoa_widths:
  "itoa 224 = ''224''" "itoa 256 = ''256''" "itoa 384 = ''384''" "itoa 512 = ''512''"
  by code_simp+

lemma Atoi_widths:
  "Atoi ''224'' = (224, None)" "Atoi ''256'' = (256, None)"
  "Atoi ''384'' = (384, None)" "Atoi ''512'' = (512, None)"
  by code_simp+

lemma width_text:
  assumes "w \<in> {224, 256, 384, 512}"
  shows "length (itoa w) = 3" and "Atoi (itoa w) = (w, None)"
  using assms by (auto simp: itoa_widths Atoi_widths)

lemma append_same_length:
  "xs @ us = ys @ vs \<Longrightarrow> length xs = length ys \<Longrightarrow> xs = ys \<and> us = vs"
  by simp

lemma tagged_roundtrip:
  assumes w: "w \<in> {224, 256, 384, 512}" and h: "set h \<subseteq> set hexdigits"
    and ok: "p_err (parseHash (output_line True w p b f h) True) = None"
  shows "parseHash (output_line True w p b f h) True =
           zero\<lparr>p_hash := h, p_fname := f, p_algorithm := w\<rparr>"
proof -
  let ?line = "''SHA3-'' @ itoa w @ '' ('' @ f @ '') = '' @ h"
  have line: "output_line True w p b f h = ?line" by (simp add: output_line_def)
  from ok have "p_err (parseTagHash ?line) = None" by (simp add: parseHash_def line)
  then obtain m a where m: "run tagRegexp ?line c0 = Some m"
    and at: "Atoi (m 1) = (a, None)"
    and p: "parseTagHash ?line = zero\<lparr>p_algorithm := a, p_fname := m 2, p_hash := m 3\<rparr>"
    by (rule parseTagHash_ok)
  from tag_run [OF m] obtain sp1 sp2 where
    sh: "?line = ''SHA3-'' @ m 1 @ '' ('' @ m 2 @ '')'' @ sp1 @ ''='' @ sp2 @ m 3"
    and l1: "length (m 1) = 3" and m3: "set (m 3) \<subseteq> set hexdigits"
    and sp: "set sp1 \<subseteq> {CHR '' ''}" "set sp2 \<subseteq> {CHR '' ''}"
    by blast
  from sh have "itoa w @ ('' ('' @ f @ '') = '' @ h)
                 = m 1 @ ('' ('' @ m 2 @ '')'' @ sp1 @ ''='' @ sp2 @ m 3)"
    by simp
  moreover have "length (itoa w) = length (m 1)"
    using l1 width_text(1) [OF w] by simp
  ultimately
  have "itoa w = m 1
        \<and> '' ('' @ f @ '') = '' @ h = '' ('' @ m 2 @ '')'' @ sp1 @ ''='' @ sp2 @ m 3"
    by (rule append_same_length)
  then have m1: "itoa w = m 1"
    and rest: "'' ('' @ f @ '') = '' @ h = '' ('' @ m 2 @ '')'' @ sp1 @ ''='' @ sp2 @ m 3"
    by blast+
  from rest have "m 2 @ '')'' @ sp1 @ ''='' @ sp2 @ m 3 = f @ '') = '' @ h" by simp
  from tagged_line_unique [OF this m3 h sp] have "m 2 = f" "m 3 = h" by simp_all
  moreover from at m1 width_text(2) [OF w] have "a = w" by simp
  ultimately show ?thesis using p by (simp add: parseHash_def line)
qed

section \<open>Writing a line and reading it back\<close>

text \<open>
  What holds for every entry. Take a digest of width/4 hex digits for one of the four
  widths, a non-empty file name and at most one of the two mode flags. In the plain
  grammar, when the file name holds no line feed and does not begin with a space, a
  star or a question mark, \<^verbatim>\<open>parseHash\<close> applied to the line that \<^verbatim>\<open>hashFiles\<close> prints
  returns the digest, the file name, the width and the two flags, and no error. In
  the tagged grammar, whenever \<^verbatim>\<open>parseHash\<close> accepts the printed line, it returns the
  digest, the file name and the width, with both flags unset.
\<close>

lemma roundtrip_where_accepted:
  assumes "w \<in> {224, 256, 384, 512}" and "int (length h) = w div 4"
    and "set h \<subseteq> set hexdigits" and "f \<noteq> []" and "\<not> (p \<and> b)"
  shows "(LF \<notin> set f \<and> hd f \<notin> set '' *?''
            \<longrightarrow> parseHash (output_line False w p b f h) False =
                 \<lparr>p_hash = h, p_fname = f, p_algorithm = w, p_portable = p, p_binary = b,
                    p_err = None\<rparr>)
    \<and> (p_err (parseHash (output_line True w p b f h) True) = None
            \<longrightarrow> parseHash (output_line True w p b f h) True =
                 \<lparr>p_hash = h, p_fname = f, p_algorithm = w, p_portable = False,
                    p_binary = False, p_err = None\<rparr>)"
proof (intro conjI impI)
  assume "LF \<notin> set f \<and> hd f \<notin> set '' *?''"
  with assms plain_roundtrip [of w h f p b]
  show "parseHash (output_line False w p b f h) False =
          \<lparr>p_hash = h, p_fname = f, p_algorithm = w, p_portable = p, p_binary = b, p_err = None\<rparr>"
    by (simp add: zero_def)
next
  assume "p_err (parseHash (output_line True w p b f h) True) = None"
  with assms tagged_roundtrip [of w h p b f]
  show "parseHash (output_line True w p b f h) True =
          \<lparr>p_hash = h, p_fname = f, p_algorithm = w, p_portable = False, p_binary = False,
             p_err = None\<rparr>"
    by (simp add: zero_def)
qed

text \<open>
  The limits of the two formats. In the plain grammar the file name \<^verbatim>\<open>*f\<close> is read back
  as the name \<^verbatim>\<open>f\<close> in binary mode and \<^verbatim>\<open> f\<close> without its space, and a name with a line
  feed gives a line that is rejected. The tagged line has no place for the mode: an
  entry in binary mode is read back with the flag unset.
\<close>

lemma roundtrip_limits_of_the_formats:
  "p_fname (parseHash (output_line False 224 False False ''*f'' (replicate 56 (CHR ''a''))) False) = ''f''
   \<and> p_binary (parseHash (output_line False 224 False False ''*f'' (replicate 56 (CHR ''a''))) False) = True
   \<and> p_fname (parseHash (output_line False 224 False False '' f'' (replicate 56 (CHR ''a''))) False) = ''f''
   \<and> p_err (parseHash (output_line False 224 False False (''a'' @ [LF] @ ''b'') (replicate 56 (CHR ''a''))) False)
       = Some ''bad checksum line''
   \<and> p_err (parseHash (output_line True 224 False True ''f'' (replicate 56 (CHR ''a''))) True) = None
   \<and> p_binary (parseHash (output_line True 224 False True ''f'' (replicate 56 (CHR ''a''))) True) = False"
  by code_simp

text \<open>
  A tagged line is rejected as soon as the file name in it is longer than one rune,
  whatever the width and the digest: for a file name of two ASCII characters or more,
  no line that \<^verbatim>\<open>hashFiles\<close> prints with \<^verbatim>\<open>--tag\<close> is read back.
\<close>

lemma tagged_line_rejected_beyond_one_rune:
  assumes w: "w \<in> {224, 256, 384, 512}" and h: "set h \<subseteq> set hexdigits"
    and f: "rune_width f < length f"
  shows "p_err (parseHash (output_line True w p b f h) True) \<noteq> None"
proof
  assume ok: "p_err (parseHash (output_line True w p b f h) True) = None"
  let ?line = "output_line True w p b f h"
  from tagged_roundtrip [OF w h ok] have r: "p_fname (parseTagHash ?line) = f"
    by (simp add: parseHash_def zero_def)
  from ok have "p_err (parseTagHash ?line) = None" by (simp add: parseHash_def)
  then obtain m a where m: "run tagRegexp ?line c0 = Some m"
    and p: "parseTagHash ?line = zero\<lparr>p_algorithm := a, p_fname := m 2, p_hash := m 3\<rparr>"
    by (rule parseTagHash_ok)
  from p r have "m 2 = f" by simp
  with tag_run_name [OF m] f show False by simp
qed

text \<open>
  Claim C2, at a failing input. With \<^verbatim>\<open>--tag\<close> the program prints for the file
  \<^verbatim>\<open>abc.txt\<close> the line \<^verbatim>\<open>SHA3-256 (abc.txt) = 616263000...0\<close>. Read back in the tagged
  grammar, this line is rejected with the error \<^verbatim>\<open>bad checksum line\<close> and none of the
  digest, the file name and the width is returned: the pattern \<^verbatim>\<open>tagRegexp\<close> allows one
  character between the parentheses, where the line printed holds the whole file
  name. The same happens with the two-character name \<^verbatim>\<open>ab\<close>, for the width 224.
\<close>

theorem C2_tagged_line_not_read_back:
  "hashFiles demo [''abc.txt''] 256 False False True =
     ([Opened ''abc.txt'', Stdout (''SHA3-256 (abc.txt) = 616263'' @ replicate 58 (CHR ''0''))],
      Ret None)
   \<and> output_line True 256 False False ''abc.txt'' (''616263'' @ replicate 58 (CHR ''0''))
       = ''SHA3-256 (abc.txt) = 616263'' @ replicate 58 (CHR ''0'')
   \<and> parseHash (''SHA3-256 (abc.txt) = 616263'' @ replicate 58 (CHR ''0'')) True =
       \<lparr>p_hash = [], p_fname = [], p_algorithm = 0, p_portable = False, p_binary = False,
          p_err = Some ''bad checksum line''\<rparr>
   \<and> parseHash (output_line True 224 False False ''ab'' (replicate 56 (CHR ''a''))) True =
       \<lparr>p_hash = [], p_fname = [], p_algorithm = 0, p_portable = False, p_binary = False,
          p_err = Some ''bad checksum line''\<rparr>"
  by code_simp

section \<open>Verification: the exit status\<close>

lemma checkFiles_loop_lenient:
  "snd (checkFiles_loop w closed hs binaryFlag portableFlag False statusFlag is good bad)
     \<noteq> Ret (Inl e)"
proof (induction w closed hs binaryFlag portableFlag "False" statusFlag "is" good bad
       rule: checkFiles_loop.induct)
  case (1 w closed hs binaryFlag portableFlag statusFlag good bad)
  show ?case by simp
next
  case (2 w closed expectedHexHashes filenames algorithms portables binaries binaryFlag portableFlag statusFlag i "is" good bad)
  show ?case
    using 2
    by (auto simp add: Let_def after_def split: option.splits prod.splits outcome.splits if_splits)
qed

lemma checkFiles_loop_lenient_pair:
  "checkFiles_loop w closed hs binaryFlag portableFlag False statusFlag is good bad
     = (ev, Ret (Inl e)) \<Longrightarrow> False"
  using checkFiles_loop_lenient [of w closed hs binaryFlag portableFlag statusFlag "is" good bad e]
  by simp

text \<open>
  With strict unset, \<^verbatim>\<open>checkFiles\<close> never returns an error: whenever it returns, it
  returns nil, whatever the manifest and whatever the counts.
\<close>

lemma checkFiles_lenient_returns_nil:
  assumes "checkFiles w checkFilename binaryFlag portableFlag tagFlag False statusFlag = (ev, Ret r)"
  shows "r = None"
  using assms
  by (auto simp add: checkFiles_def after_def split: prod.splits outcome.splits sum.splits
           dest: checkFiles_loop_lenient_pair)

text \<open>
  Claim C1, at a failing input. The manifest \<^verbatim>\<open>sums\<close> records a digest of
  \<^verbatim>\<open>abc.txt\<close> that is not the digest of the file. The program reports the entry as
  FAILED, warns that 1 of 1 checksums did not match, and \<^verbatim>\<open>checkFiles\<close> returns nil: the
  exit status is 0. The second program does the same on the tagged manifest
  \<^verbatim>\<open>tagsums\<close>.
\<close>

theorem C1_mismatch_exits_zero:
  "(case main demo (defaults\<lparr>check_opt := Some ''sums''\<rparr>) of
      (ev, r) \<Rightarrow>
        ev = [Stdout ''checking  sums'', Opened ''sums'', Stdout ''checking files [abc.txt]'',
              Opened ''abc.txt'', Stdout ''abc.txt: FAILED'',
              Stderr ''sha3sum: WARNING 1 of 1 computed checksums did NOT match'']
        \<and> r = Ret () \<and> exit_status r = 0)
   \<and> (case main_p0 demo (defaults\<lparr>check_opt := Some ''tagsums'', tag_opt := Some True\<rparr>) of
        (ev, r) \<Rightarrow>
          ev = [Opened ''tagsums'', Opened ''f'', Stdout ''f: FAILED'',
                Stderr ''sha3sum: WARNING 1 of 1 computed checksums did NOT match'']
          \<and> r = Ret () \<and> exit_status r = 0)"
  by code_simp

text \<open>
  \<^verbatim>\<open>hashFile\<close> never returns an error: it ends the process instead.
\<close>

lemma hashFile_no_error:
  "hashFile w closed filename algorithm portable binary = (ev, Ret (hx, e, closed'))
     \<Longrightarrow> e = None"
  by (auto simp: hashFile_def dieerr_def die_def after_def Let_def split: sum.splits outcome.splits option.splits if_splits)

lemma hashFile_missing:
  "filename \<noteq> ''-'' \<Longrightarrow> open_file w filename = Inl e
     \<Longrightarrow> hashFile w closed filename algorithm portable binary = ([Stderr e], Exited 1)"
  by (simp add: hashFile_def dieerr_def die_def)

text \<open>
  Claim C6, at a failing input. The first entry of the manifest \<^verbatim>\<open>sums2\<close> names a file
  that does not exist, the second one a file whose digest matches. With strict unset
  the process ends with status 1 at the first entry, inside \<^verbatim>\<open>hashFile\<close>: nothing is
  reported for the entry, and the second file is never opened. The second program
  does the same on the tagged manifest \<^verbatim>\<open>tagsums2\<close>.
\<close>

theorem C6_missing_file_ends_lenient_run:
  "main demo (defaults\<lparr>check_opt := Some ''sums2''\<rparr>) =
     ([Stdout ''checking  sums2'', Opened ''sums2'',
       Stdout ''checking files [missing.txt abc.txt]'',
       Stderr ''open missing.txt: no such file or directory''], Exited 1)
   \<and> main_p0 demo (defaults\<lparr>check_opt := Some ''tagsums2'', tag_opt := Some True\<rparr>) =
     ([Opened ''tagsums2'', Stderr ''open x: no such file or directory''], Exited 1)"
  by code_simp

section \<open>Standard input is read once\<close>

text \<open>
  \<^verbatim>\<open>hashFile\<close> leaves standard input closed after reading it, and dies when it is asked
  to read it again: of two \<^verbatim>\<open>-\<close> on the command line, the first gets its line and the
  second ends the process with status 1.
\<close>

lemma hashFile_closes_stdin:
  "hashFile w closed filename algorithm portable binary = (ev, Ret (hx, e, closed'))
     \<Longrightarrow> closed' = (closed \<or> filename = ''-'')"
  unfolding hashFile_def dieerr_def die_def after_def Let_def
  by (simp split: sum.splits outcome.splits option.splits if_splits)

lemma hashFile_closed_stdin:
  "hashFile w True ''-'' algorithm portable binary =
     ([Stderr ''read /dev/stdin: file already closed''], Exited 1)"
  by (simp add: hashFile_def closed_stdin_def dieerr_def die_def after_def Let_def)

lemma hashFile_p0_closed_stdin:
  "hashFile_p0 w True ''-'' algorithm =
     ([Stderr ''read /dev/stdin: file already closed''], Exited 1)"
  by (simp add: hashFile_p0_def closed_stdin_def dieerr_def die_def after_def Let_def)

lemma standard_input_read_once:
  "hashFiles demo [''-'', ''-''] 256 False False False =
     ([Stdout (replicate 64 (CHR ''0'') @ ''  -''),
       Stderr ''read /dev/stdin: file already closed''], Exited 1)"
  by code_simp

section \<open>Text mode\<close>

declare text_loop.simps [simp del]

lemma split_at_LF:
  assumes "LF \<in> set s"
  shows "s = takeWhile (\<lambda>c. c \<noteq> LF) s @ LF # tl (dropWhile (\<lambda>c. c \<noteq> LF) s)"
proof -
  from assms have "dropWhile (\<lambda>c. c \<noteq> LF) s \<noteq> []" by auto
  moreover from this have "hd (dropWhile (\<lambda>c. c \<noteq> LF) s) = LF"
    using hd_dropWhile [of "\<lambda>c. c \<noteq> LF" s] by simp
  ultimately have "dropWhile (\<lambda>c. c \<noteq> LF) s = LF # tl (dropWhile (\<lambda>c. c \<noteq> LF) s)"
    by (cases "dropWhile (\<lambda>c. c \<noteq> LF) s") auto
  then show ?thesis
    using takeWhile_dropWhile_id [of "\<lambda>c. c \<noteq> LF" s] by simp
qed

text \<open>
  In text mode the digest is fed the input up to its last line feed, byte for byte:
  no carriage return is taken out, and what follows the last line feed is left out.
\<close>

lemma text_loop_feeds_lines_unchanged:
  "text_loop s (Some a) = Ret (Some (a @ rev (dropWhile (\<lambda>c. c \<noteq> LF) (rev s))))"
proof (induction s arbitrary: a rule: length_induct)
  case (1 s)
  show ?case
  proof (cases "LF \<in> set s")
    case False
    then have "dropWhile (\<lambda>c. c \<noteq> LF) (rev s) = []" by auto
    with False show ?thesis by (subst text_loop.simps) simp
  next
    case True
    let ?u = "takeWhile (\<lambda>c. c \<noteq> LF) s"
    let ?rest = "tl (dropWhile (\<lambda>c. c \<noteq> LF) s)"
    have s: "s = ?u @ LF # ?rest" using True by (rule split_at_LF)
    have "length ?rest < length s"
      using arg_cong [OF s, of length] by simp
    then have IH: "text_loop ?rest (Some (a @ ?u @ [LF]))
                    = Ret (Some ((a @ ?u @ [LF]) @ rev (dropWhile (\<lambda>c. c \<noteq> LF) (rev ?rest))))"
      using "1.IH" by blast
    have "rev s = rev ?rest @ LF # rev ?u"
      using arg_cong [OF s, of rev] by simp
    then have "dropWhile (\<lambda>c. c \<noteq> LF) (rev s)
                = dropWhile (\<lambda>c. c \<noteq> LF) (rev ?rest) @ LF # rev ?u"
      by (simp add: dropWhile_append3)
    then have r: "rev (dropWhile (\<lambda>c. c \<noteq> LF) (rev s))
                = ?u @ [LF] @ rev (dropWhile (\<lambda>c. c \<noteq> LF) (rev ?rest))"
      by simp
    have ne: "LF \<noteq> CR" by (simp add: LF_def CR_def)
    show ?thesis
      using True IH ne
      by (subst text_loop.simps) (simp add: Let_def r)
  qed
qed

text \<open>
  Claim C7, at a failing input. On a host where \<^verbatim>\<open>WINDIR\<close> is set and with neither the
  binary nor the portable flag, the file \<^verbatim>\<open>crlf.txt\<close>, which holds \<^verbatim>\<open>a\<close>, a carriage
  return and a line feed, is written to the digest byte for byte, carriage return
  included: its digest differs from that of \<^verbatim>\<open>lf.txt\<close>, which holds \<^verbatim>\<open>a\<close> and a line
  feed.
\<close>

theorem C7_text_mode_keeps_carriage_return:
  "text_loop (''a'' @ [CR, LF]) (Some []) = Ret (Some (''a'' @ [CR, LF]))
   \<and> hashFile (demo\<lparr>windows := True\<rparr>) False ''crlf.txt'' 256 False False =
       ([Opened ''crlf.txt''], Ret (''610d0a'' @ replicate 58 (CHR ''0''), None, False))
   \<and> hashFile (demo\<lparr>windows := True\<rparr>) False ''lf.txt'' 256 False False =
       ([Opened ''lf.txt''], Ret (''610a'' @ replicate 60 (CHR ''0''), None, False))"
  by code_simp

section \<open>The width selector\<close>

text \<open>
  Claim C9, at a failing input. With the width 100 and the file \<^verbatim>\<open>abc.txt\<close> on the
  command line, \<^verbatim>\<open>main\<close> does not reject the width: the guard asks for the option
  pointer to be nil and the width to be invalid, and the pointer is never nil. The
  file is opened, and the first write to the digest, which is nil, panics. The
  second program, whose guard asks for one or the other, dies with
  \<^verbatim>\<open>bad algorithm\<close> before any file is opened.
\<close>

theorem C9_invalid_width_not_rejected:
  "main demo (defaults\<lparr>algorithm_opt := Some 100, args := [''abc.txt'']\<rparr>) =
     ([Opened ''abc.txt''], Panicked)
   \<and> main_p0 demo (defaults\<lparr>algorithm_opt := Some 100, args := [''abc.txt'']\<rparr>) =
     ([Stderr ''bad algorithm''], Exited 1)"
  by code_simp

section \<open>The plain grammar of the second program\<close>

text \<open>
  Claim C3, at a failing input. The pattern of the second program has two capture
  groups, so \<^verbatim>\<open>FindStringSubmatch\<close> returns three strings, and \<^verbatim>\<open>parseNormalHash\<close>
  asks for four: every line gets an error, a line of 56 hex digits, two spaces and a
  file name among them.
\<close>

theorem C3_second_program_rejects_every_line:
  "p_err (parseNormalHash_p0 line) \<noteq> None
   \<and> parseNormalHash_p0 (replicate 56 (CHR ''a'') @ ''  f'') = zero\<lparr>p_err := Some ''bad line''\<rparr>"
proof
  show "p_err (parseNormalHash_p0 line) \<noteq> None"
    by (simp add: parseNormalHash_p0_def FindStringSubmatch_def MatchString_def numSubexp_def
          normalRegexp_p0_def upt_rec split: option.splits)
  show "parseNormalHash_p0 (replicate 56 (CHR ''a'') @ ''  f'') = zero\<lparr>p_err := Some ''bad line''\<rparr>"
    by code_simp
qed

end
